theory Spec2Isabelle
  imports Complex_Main "HOL-Library.Sublist" "HOL-Library.AList"
begin

section \<open>JavaScript values\<close>

text \<open>
  The scanner module works on untyped JavaScript values: the identifier taken out of a
  decoded JSON payload may be any JSON value or \<open>undefined\<close>. Numbers are embedded as
  reals. Strings are embedded as \<^typ>\<open>string\<close>; the string operations used by the code
  (\<open>startsWith\<close>, \<open>includes\<close>, \<open>split\<close>, the UUID pattern) compare against ASCII
  literals only.
\<close>

datatype jsval =
    Undefined
  | Null
  | Bool bool
  | Num real
  | Str string
  | Arr "jsval list"
  | Obj "(string \<times> jsval) list"

datatype js_error =
    SyntaxError string
  | TypeError string
  | Error string

fun message :: "js_error \<Rightarrow> string" where
  "message (SyntaxError m) = m"
| "message (TypeError m) = m"
| "message (Error m) = m"

text \<open>JavaScript truthiness (\<open>ToBoolean\<close>); a JSON number is never \<open>NaN\<close>.\<close>

fun truthy :: "jsval \<Rightarrow> bool" where
  "truthy Undefined = False"
| "truthy Null = False"
| "truthy (Bool b) = b"
| "truthy (Num x) = (x \<noteq> 0)"
| "truthy (Str s) = (s \<noteq> [])"
| "truthy (Arr _) = True"
| "truthy (Obj _) = True"

text \<open>\<open>a || b\<close> on values without side effects.\<close>

definition js_or :: "jsval \<Rightarrow> jsval \<Rightarrow> jsval" where
  "js_or a b = (if truthy a then a else b)"

text \<open>
  Property read \<open>v.k\<close> for the keys the module reads (\<open>id\<close>, \<open>qr_code_id\<close>,
  \<open>tree_id\<close>), none of which is defined on a built-in prototype: reading from
  \<open>undefined\<close> or \<open>null\<close> throws a \<open>TypeError\<close>, reading from an object yields the
  own property or \<open>undefined\<close>, reading from any other value yields \<open>undefined\<close>.
\<close>

fun get_prop :: "jsval \<Rightarrow> string \<Rightarrow> js_error + jsval" where
  "get_prop Undefined k = Inl (TypeError ''Cannot read properties of undefined'')"
| "get_prop Null k = Inl (TypeError ''Cannot read properties of null'')"
| "get_prop (Obj kvs) k = Inr (case map_of kvs k of None \<Rightarrow> Undefined | Some v \<Rightarrow> v)"
| "get_prop _ k = Inr Undefined"

text \<open>Optional chaining \<open>v?.k\<close>: \<open>undefined\<close> when \<open>v\<close> is \<open>undefined\<close> or \<open>null\<close>.\<close>

fun opt_prop :: "jsval \<Rightarrow> string \<Rightarrow> jsval" where
  "opt_prop (Obj kvs) k = (case map_of kvs k of None \<Rightarrow> Undefined | Some v \<Rightarrow> v)"
| "opt_prop _ k = Undefined"

subsection \<open>String operations\<close>

definition startsWith :: "string \<Rightarrow> string \<Rightarrow> bool" where
  "startsWith s p = prefix p s"

fun includes_str :: "string \<Rightarrow> string \<Rightarrow> bool" where
  "includes_str [] p = (p = [])"
| "includes_str (c # cs) p = (prefix p (c # cs) \<or> includes_str cs p)"

text \<open>\<open>s.split(sep)\<close> for a one-character separator: never the empty array.\<close>

fun split :: "char \<Rightarrow> string \<Rightarrow> string list" where
  "split sep [] = [[]]"
| "split sep (c # cs) =
     (if c = sep then [] # split sep cs
      else (case split sep cs of [] \<Rightarrow> [[c]] | w # ws \<Rightarrow> (c # w) # ws))"

text \<open>\<open>xs.pop()\<close> read as a value: the last element, \<open>undefined\<close> on the empty array.\<close>

definition pop :: "string list \<Rightarrow> jsval" where
  "pop xs = (if xs = [] then Undefined else Str (last xs))"

definition is_hex :: "char \<Rightarrow> bool" where
  "is_hex c = (c \<in> set ''0123456789abcdefABCDEF'')"

text \<open>Consume exactly \<open>n\<close> hexadecimal digits.\<close>

fun hex_run :: "nat \<Rightarrow> string \<Rightarrow> string option" where
  "hex_run 0 s = Some s"
| "hex_run (Suc n) [] = None"
| "hex_run (Suc n) (c # cs) = (if is_hex c then hex_run n cs else None)"

definition dash :: "string \<Rightarrow> string option" where
  "dash s = (case s of [] \<Rightarrow> None | c # cs \<Rightarrow> if c = CHR ''-'' then Some cs else None)"

text \<open>
  The test \<open>data.match(/^[0-9a-f]{8}-[0-9a-f]{4}-[0-9a-f]{4}-[0-9a-f]{4}-[0-9a-f]{12}$/i)\<close>
  as a boolean: the whole input is five hexadecimal groups of 8, 4, 4, 4 and 12 digits
  separated by hyphens, in either case.
\<close>

definition matches_uuid :: "string \<Rightarrow> bool" where
  "matches_uuid s =
     (Option.bind (hex_run 8 s) (\<lambda>a. Option.bind (dash a) (\<lambda>b.
      Option.bind (hex_run 4 b) (\<lambda>c. Option.bind (dash c) (\<lambda>d.
      Option.bind (hex_run 4 d) (\<lambda>e. Option.bind (dash e) (\<lambda>f.
      Option.bind (hex_run 4 f) (\<lambda>g. Option.bind (dash g) (\<lambda>h.
      hex_run 12 h)))))))) = Some [])"

section \<open>The platform: JSON decoder and URL constructor\<close>

text \<open>
  \<open>JSON.parse\<close> and \<open>new URL\<close> belong to the browser, not to the repository. The
  module's functions take them as parameters: a decoder that returns the decoded value or
  the thrown error, and a URL constructor that returns the parsed URL or the thrown
  error. Of a parsed URL the code reads the path name and the query parameters.
\<close>

record URL =
  pathname :: string
  searchParams :: "(string \<times> string) list"

text \<open>\<open>url.searchParams.get(k)\<close>: the first value of the name, or \<open>null\<close>.\<close>

definition searchParams_get :: "URL \<Rightarrow> string \<Rightarrow> jsval" where
  "searchParams_get u k = (case map_of (searchParams u) k of None \<Rightarrow> Null | Some v \<Rightarrow> Str v)"

record platform =
  JSON_parse :: "string \<Rightarrow> js_error + jsval"
  URL_new :: "string \<Rightarrow> js_error + URL"

section \<open>Classification of scanned text: \<open>parseQRCode\<close>\<close>

datatype qr_type = json | gs_format | url | uuid

text \<open>
  The object returned by \<open>parseQRCode\<close>. A field the object literal does not mention
  reads as \<open>undefined\<close>: \<open>Undefined\<close> for \<open>id\<close> and \<open>data\<close>, \<open>None\<close> for \<open>type\<close> and
  \<open>error\<close>.
\<close>

record qr_info =
  valid :: bool
  qr_id :: jsval
  qr_type :: "qr_type option"
  data :: jsval
  error :: "string option"

definition invalid_info :: "string \<Rightarrow> qr_info" where
  "invalid_info msg =
     \<lparr>valid = False, qr_id = Undefined, qr_type = None, data = Undefined, error = Some msg\<rparr>"

text \<open>The branch taken when the text starts with an opening brace.\<close>

definition json_rule :: "platform \<Rightarrow> string \<Rightarrow> js_error + qr_info" where
  "json_rule P d =
     (case JSON_parse P d of
        Inl e \<Rightarrow> Inl e
      | Inr parsed \<Rightarrow>
          (case get_prop parsed ''id'' of
             Inl e \<Rightarrow> Inl e
           | Inr a \<Rightarrow>
               if truthy a
               then Inr \<lparr>valid = True, qr_id = a, qr_type = Some json, data = parsed,
                         error = None\<rparr>
               else (case get_prop parsed ''qr_code_id'' of
                       Inl e \<Rightarrow> Inl e
                     | Inr b \<Rightarrow>
                         Inr \<lparr>valid = True, qr_id = b, qr_type = Some json, data = parsed,
                              error = None\<rparr>)))"

text \<open>
  The URL branch with its own \<open>try\<close>: \<open>None\<close> when the text has neither marker or the
  constructor throws, so that the caller goes on to the UUID test.
\<close>

definition url_rule :: "platform \<Rightarrow> string \<Rightarrow> qr_info option" where
  "url_rule P d =
     (if includes_str d ''http'' \<or> includes_str d ''tree-details''
      then (case URL_new P d of
              Inl urlError \<Rightarrow> None
            | Inr u \<Rightarrow>
                let treeId = searchParams_get u ''id'';
                    qrCodeId = searchParams_get u ''qr'';
                    i = js_or qrCodeId (js_or treeId (pop (split (CHR ''/'') (pathname u))))
                in Some \<lparr>valid = True, qr_id = i, qr_type = Some url,
                         data = Obj [(''tree_id'', treeId), (''qr_code_id'', qrCodeId)],
                         error = None\<rparr>)
      else None)"

text \<open>The rules after the JSON branch: native code, URL, UUID, unknown.\<close>

definition later_rules :: "platform \<Rightarrow> string \<Rightarrow> qr_info" where
  "later_rules P d =
     (if startsWith d ''GS-''
      then \<lparr>valid = True, qr_id = Str d, qr_type = Some gs_format, data = Undefined,
            error = None\<rparr>
      else (case url_rule P d of
              Some r \<Rightarrow> r
            | None \<Rightarrow>
                if matches_uuid d
                then \<lparr>valid = True, qr_id = Str d, qr_type = Some uuid,
                      data = Obj [(''tree_id'', Str d)], error = None\<rparr>
                else invalid_info ''Unknown QR code format. Expected Green Sprint QR.''))"

text \<open>The body of the outer \<open>try\<close>: a value returned or an error thrown.\<close>

definition parseQRCode_try :: "platform \<Rightarrow> string \<Rightarrow> js_error + qr_info" where
  "parseQRCode_try P d =
     (if startsWith d ''{'' then json_rule P d else Inr (later_rules P d))"

text \<open>
  \<open>parseQRCode\<close> with its \<open>catch\<close>: a thrown error becomes an invalid result carrying
  the error's message. The second component tells whether the \<open>catch\<close> block ran, that
  is whether \<open>console.error('Parse error:', error)\<close> was written.
\<close>

definition parseQRCode_logged :: "platform \<Rightarrow> string \<Rightarrow> qr_info \<times> bool" where
  "parseQRCode_logged P d =
     (case parseQRCode_try P d of
        Inr r \<Rightarrow> (r, False)
      | Inl e \<Rightarrow> (invalid_info (message e), True))"

definition parseQRCode :: "platform \<Rightarrow> string \<Rightarrow> qr_info" where
  "parseQRCode P d = fst (parseQRCode_logged P d)"

section \<open>Resolution of a scan: \<open>handleScan\<close>\<close>

text \<open>A row of the \<open>trees\<close> table, as far as the scanner reads it.\<close>

record tree =
  tree_id :: jsval
  qr_code_id :: jsval

text \<open>The two lookups of \<open>TreeService\<close>: by the column \<open>qr_code_id\<close> and by \<open>id\<close>.\<close>

datatype lookup = ByQRCode jsval | ById jsval

text \<open>The object handed to the caller's callback.\<close>

datatype scan_result =
    Found tree jsval string
  | Failed string

fun success :: "scan_result \<Rightarrow> bool" where
  "success (Found t i m) = True"
| "success (Failed m) = False"

text \<open>
  What the module does to the outside, in the order it does it: console output (the
  first argument only), calls of the record store, the call of \<open>getCurrentLocation\<close>,
  the scanner's \<open>stop\<close>, and the invocation of the callback.
\<close>

datatype event =
    ConsoleLog string
  | ConsoleWarn string
  | ConsoleError string
  | StoreLookup lookup
  | StoreUpdate jsval
  | Geolocate
  | ScannerStop
  | Callback scan_result

text \<open>
  The scanner module's own fields (\<open>scanner\<close> set or \<open>null\<close>, \<open>isScanning\<close>) and the
  events so far.
\<close>

record module_state =
  has_scanner :: bool
  isScanning :: bool
  trace :: "event list"

text \<open>
  The collaborators, as outcomes of their calls: the store's answer to a lookup (a row,
  \<open>null\<close>, or a thrown error), \<open>AuthService.currentUser\<close>, the geolocation promise,
  the store's client initialisation and row update inside \<open>recordScan\<close>, and the
  scanner's \<open>stop\<close>. The table does not change while one scan is handled: the
  store's answer depends on the lookup only.
\<close>

record collaborators =
  store :: "lookup \<Rightarrow> js_error + tree option"
  currentUser :: jsval
  geolocation :: "js_error + jsval"
  initSupabase :: "js_error option"
  update_tree :: "jsval \<Rightarrow> js_error option"
  scanner_stop :: "js_error option"

subsection \<open>Sequencing with exceptions and state\<close>

type_synonym 'a js = "module_state \<Rightarrow> (js_error + 'a) \<times> module_state"

definition ret :: "'a \<Rightarrow> 'a js" where
  "ret x = (\<lambda>s. (Inr x, s))"

definition throw :: "js_error \<Rightarrow> 'a js" where
  "throw e = (\<lambda>s. (Inl e, s))"

definition then_do :: "'a js \<Rightarrow> ('a \<Rightarrow> 'b js) \<Rightarrow> 'b js" where
  "then_do m f = (\<lambda>s. case m s of (Inl e, s') \<Rightarrow> (Inl e, s') | (Inr x, s') \<Rightarrow> f x s')"

definition try_catch :: "'a js \<Rightarrow> (js_error \<Rightarrow> 'a js) \<Rightarrow> 'a js" where
  "try_catch m h = (\<lambda>s. case m s of (Inl e, s') \<Rightarrow> h e s' | (Inr x, s') \<Rightarrow> (Inr x, s'))"

definition emit :: "event \<Rightarrow> unit js" where
  "emit ev = (\<lambda>s. (Inr (), s\<lparr>trace := trace s @ [ev]\<rparr>))"

definition outcome :: "js_error + 'a \<Rightarrow> 'a js" where
  "outcome r = (\<lambda>s. (r, s))"

subsection \<open>The store's services\<close>

definition getByQRCode :: "collaborators \<Rightarrow> jsval \<Rightarrow> tree option js" where
  "getByQRCode E qrCodeId =
     then_do (emit (StoreLookup (ByQRCode qrCodeId))) (\<lambda>_. outcome (store E (ByQRCode qrCodeId)))"

definition getById :: "collaborators \<Rightarrow> jsval \<Rightarrow> tree option js" where
  "getById E treeId =
     then_do (emit (StoreLookup (ById treeId))) (\<lambda>_. outcome (store E (ById treeId)))"

text \<open>
  \<open>QRCodeService.recordScan\<close>: the client initialisation is outside its \<open>try\<close>; the
  lookup and the update are inside, and their errors are written to the console.
\<close>

definition recordScan :: "collaborators \<Rightarrow> jsval \<Rightarrow> jsval \<Rightarrow> jsval \<Rightarrow> unit js" where
  "recordScan E qrCodeId userId location =
     then_do (outcome (case initSupabase E of None \<Rightarrow> Inr () | Some e \<Rightarrow> Inl e)) (\<lambda>_.
     then_do (emit (ConsoleLog ''QR Scan recorded:'')) (\<lambda>_.
     try_catch
       (then_do (getByQRCode E qrCodeId) (\<lambda>t.
          case t of
            None \<Rightarrow> ret ()
          | Some r \<Rightarrow>
              then_do (emit (StoreUpdate (tree_id r))) (\<lambda>_.
                outcome (case update_tree E (tree_id r) of None \<Rightarrow> Inr () | Some e \<Rightarrow> Inl e))))
       (\<lambda>error. emit (ConsoleError ''Error recording scan:''))))"

subsection \<open>The scanner module\<close>

definition stopScanning :: "collaborators \<Rightarrow> unit js" where
  "stopScanning E =
     (\<lambda>s. if has_scanner s \<and> isScanning s
          then (case scanner_stop E of
                  None \<Rightarrow>
                    (Inr (), s\<lparr>isScanning := False,
                               trace := trace s @ [ScannerStop, ConsoleLog ''Scanner stopped'']\<rparr>)
                | Some stopError \<Rightarrow>
                    (Inr (), s\<lparr>trace := trace s @
                                 [ScannerStop, ConsoleError ''Failed to stop scanner:'']\<rparr>))
          else (Inr (), s))"

text \<open>
  The test \<open>qrInfo.id && qrInfo.id.startsWith('GS-')\<close>: a falsy identifier ends the
  test, a string is tested for the prefix, and on any other truthy value
  \<open>startsWith\<close> is not a function.
\<close>

definition id_startsWith_GS :: "jsval \<Rightarrow> js_error + bool" where
  "id_startsWith_GS v =
     (if \<not> truthy v then Inr False
      else (case v of
              Str s \<Rightarrow> Inr (startsWith s ''GS-'')
            | _ \<Rightarrow> Inl (TypeError ''qrInfo.id.startsWith is not a function'')))"

text \<open>The five numbered attempts at finding the tree, in the order of the source.\<close>

definition find_tree :: "collaborators \<Rightarrow> qr_info \<Rightarrow> tree option js" where
  "find_tree E qrInfo =
     then_do (outcome (id_startsWith_GS (qr_id qrInfo))) (\<lambda>gs.
     then_do (if gs then getByQRCode E (qr_id qrInfo) else ret None) (\<lambda>tree.
     then_do (if tree = None \<and> truthy (opt_prop (data qrInfo) ''tree_id'')
              then getById E (opt_prop (data qrInfo) ''tree_id'') else ret tree) (\<lambda>tree.
     then_do (if tree = None \<and> truthy (opt_prop (data qrInfo) ''qr_code_id'')
              then getByQRCode E (opt_prop (data qrInfo) ''qr_code_id'') else ret tree) (\<lambda>tree.
     then_do (if tree = None \<and> qr_type qrInfo = Some uuid
              then getById E (qr_id qrInfo) else ret tree) (\<lambda>tree.
     then_do (if tree = None then getByQRCode E (qr_id qrInfo) else ret tree) (\<lambda>tree.
             (if tree = None then getById E (qr_id qrInfo) else ret tree)))))))"

text \<open>
  Recording the scan when a user is logged in (\<open>currentUser !== null\<close>): the location
  request, the read of the user's \<open>id\<close> and \<open>recordScan\<close> sit in one \<open>try\<close> whose
  \<open>catch\<close> writes a warning.
\<close>

definition isLoggedIn :: "collaborators \<Rightarrow> bool" where
  "isLoggedIn E = (currentUser E \<noteq> Null)"

definition record_the_scan :: "collaborators \<Rightarrow> qr_info \<Rightarrow> tree \<Rightarrow> unit js" where
  "record_the_scan E qrInfo t =
     (if isLoggedIn E
      then try_catch
             (then_do (emit Geolocate) (\<lambda>_.
              then_do (outcome (geolocation E)) (\<lambda>location.
              then_do (outcome (get_prop (currentUser E) ''id'')) (\<lambda>userId.
                recordScan E (js_or (qr_code_id t) (qr_id qrInfo)) userId location))))
             (\<lambda>recordError. emit (ConsoleWarn ''Could not record scan:''))
      else ret ())"

text \<open>
  \<open>if (callback) callback(r)\<close>: the callback may be absent, and a present callback may
  itself throw.
\<close>

definition invoke :: "(scan_result \<Rightarrow> js_error option) option \<Rightarrow> scan_result \<Rightarrow> unit js" where
  "invoke callback r =
     (case callback of
        None \<Rightarrow> ret ()
      | Some f \<Rightarrow>
          then_do (emit (Callback r)) (\<lambda>_.
            outcome (case f r of None \<Rightarrow> Inr () | Some e \<Rightarrow> Inl e)))"

definition handleScan_try ::
  "platform \<Rightarrow> collaborators \<Rightarrow> string \<Rightarrow> (scan_result \<Rightarrow> js_error option) option \<Rightarrow> unit js"
where
  "handleScan_try P E qrCodeData callback =
     then_do (emit (ConsoleLog ''Processing scanned QR:'')) (\<lambda>_.
     then_do (emit (ConsoleLog ''Parsing QR data:'')) (\<lambda>_.
     then_do (if snd (parseQRCode_logged P qrCodeData)
              then emit (ConsoleError ''Parse error:'') else ret ()) (\<lambda>_.
     then_do (ret (parseQRCode P qrCodeData)) (\<lambda>qrInfo.
     then_do (emit (ConsoleLog ''Parsed QR info:'')) (\<lambda>_.
     if \<not> valid qrInfo
     then throw (Error
       ''Invalid QR code format. This doesn't appear to be a Green Sprint QR code.'')
     else
     then_do (find_tree E qrInfo) (\<lambda>tree.
     case tree of
       None \<Rightarrow> throw (Error
         ''Tree not found. This QR code may not be registered yet or the tree was deleted.'')
     | Some t \<Rightarrow>
         then_do (record_the_scan E qrInfo t) (\<lambda>_.
         then_do (stopScanning E) (\<lambda>_.
           invoke callback
             (Found t (js_or (qr_code_id t) (qr_id qrInfo)) ''Tree found successfully!'')))))))))"

definition handleScan ::
  "platform \<Rightarrow> collaborators \<Rightarrow> string \<Rightarrow> (scan_result \<Rightarrow> js_error option) option \<Rightarrow> unit js"
where
  "handleScan P E qrCodeData callback =
     try_catch (handleScan_try P E qrCodeData callback)
       (\<lambda>error.
          then_do (emit (ConsoleError ''Scan handling error:'')) (\<lambda>_.
            invoke callback (Failed (message error))))"

subsection \<open>Reading a trace\<close>

fun lookups :: "event list \<Rightarrow> lookup list" where
  "lookups [] = []"
| "lookups (StoreLookup l # es) = l # lookups es"
| "lookups (e # es) = lookups es"

fun callbacks :: "event list \<Rightarrow> scan_result list" where
  "callbacks [] = []"
| "callbacks (Callback r # es) = r # callbacks es"
| "callbacks (e # es) = callbacks es"

fun warnings :: "event list \<Rightarrow> string list" where
  "warnings [] = []"
| "warnings (ConsoleWarn m # es) = m # warnings es"
| "warnings (e # es) = warnings es"

text \<open>The module while its scanner runs, before anything has happened.\<close>

definition started :: module_state where
  "started = \<lparr>has_scanner = True, isScanning = True, trace = []\<rparr>"

section \<open>A reference platform\<close>

text \<open>
  For the concrete scenarios the two platform functions are instantiated with reference
  models. The decoder implements the JSON grammar (ECMA-404) on texts whose characters
  are below 256; an escape \<open>\uXXXX\<close> above \<open>00FF\<close> is outside this model and is
  rejected. The text of a \<open>SyntaxError\<close> differs between engines; only its being
  thrown is modelled. The URL constructor covers absolute \<open>http\<close> and \<open>https\<close> URLs
  written in lower case with a plain host, path and query (no credentials, port,
  percent escape, plus sign or dot segment), on which the URL standard's parser returns
  the path and the query pairs unchanged; every other text is rejected here, although
  the standard accepts more.
\<close>

subsection \<open>JSON\<close>

definition is_ws :: "char \<Rightarrow> bool" where
  "is_ws c = (c = CHR '' '' \<or> c = CHR 0x09 \<or> c = CHR 0x0A \<or> c = CHR 0x0D)"

definition skip_ws :: "string \<Rightarrow> string" where
  "skip_ws s = dropWhile is_ws s"

definition is_digit :: "char \<Rightarrow> bool" where
  "is_digit c = (c \<in> set ''0123456789'')"

definition digit_val :: "char \<Rightarrow> nat" where
  "digit_val c = of_char c - 48"

definition hex_val :: "char \<Rightarrow> nat" where
  "hex_val c =
     (if is_digit c then of_char c - 48
      else if c \<in> set ''abcdef'' then of_char c - 87
      else of_char c - 55)"

definition digits_val :: "string \<Rightarrow> nat" where
  "digits_val ds = foldl (\<lambda>a c. 10 * a + digit_val c) 0 ds"

text \<open>The character an escape letter stands for.\<close>

definition unescape :: "char \<Rightarrow> char option" where
  "unescape e =
     (if e = CHR 0x22 \<or> e = CHR 0x5C \<or> e = CHR ''/'' then Some e
      else if e = CHR ''b'' then Some (CHR 0x08)
      else if e = CHR ''f'' then Some (CHR 0x0C)
      else if e = CHR ''n'' then Some (CHR 0x0A)
      else if e = CHR ''r'' then Some (CHR 0x0D)
      else if e = CHR ''t'' then Some (CHR 0x09)
      else None)"

definition cons_fst :: "'a \<Rightarrow> ('a list \<times> 'b) option \<Rightarrow> ('a list \<times> 'b) option" where
  "cons_fst x r = map_option (\<lambda>(xs, rest). (x # xs, rest)) r"

text \<open>The characters of a string after its opening quote, and the text after it.\<close>

fun json_chars :: "string \<Rightarrow> (string \<times> string) option" where
  "json_chars [] = None"
| "json_chars (c # cs) =
     (if c = CHR 0x22 then Some ([], cs)
      else if c = CHR 0x5C then
        (case cs of
           [] \<Rightarrow> None
         | e # r \<Rightarrow>
             if e = CHR ''u'' then
               (case r of
                  a # b # x # y # r' \<Rightarrow>
                    if is_hex a \<and> is_hex b \<and> is_hex x \<and> is_hex y \<and>
                       hex_val a = 0 \<and> hex_val b = 0
                    then cons_fst (char_of (16 * hex_val x + hex_val y)) (json_chars r')
                    else None
                | _ \<Rightarrow> None)
             else (case unescape e of
                     None \<Rightarrow> None
                   | Some ch \<Rightarrow> cons_fst ch (json_chars r)))
      else if (of_char c :: nat) < 32 then None
      else cons_fst c (json_chars cs))"

text \<open>
  A number: an optional minus, \<open>0\<close> or a digit string without leading zero, an optional
  fraction, an optional exponent; its value as a real.
\<close>

definition json_int_part :: "string \<Rightarrow> (string \<times> string) option" where
  "json_int_part s =
     (case s of
        [] \<Rightarrow> None
      | c # cs \<Rightarrow>
          if c = CHR ''0'' then Some ([c], cs)
          else if is_digit c then Some (takeWhile is_digit s, dropWhile is_digit s)
          else None)"

definition json_frac_part :: "string \<Rightarrow> (string \<times> string) option" where
  "json_frac_part s =
     (case s of
        [] \<Rightarrow> Some ([], s)
      | c # cs \<Rightarrow>
          if c = CHR ''.'' then
            (if takeWhile is_digit cs = [] then None
             else Some (takeWhile is_digit cs, dropWhile is_digit cs))
          else Some ([], s))"

definition json_exp_part :: "string \<Rightarrow> (int \<times> string) option" where
  "json_exp_part s =
     (case s of
        [] \<Rightarrow> Some (0, s)
      | c # cs \<Rightarrow>
          if c = CHR ''e'' \<or> c = CHR ''E'' then
            (let neg = (cs \<noteq> [] \<and> hd cs = CHR ''-'');
                 ds = (if cs \<noteq> [] \<and> (hd cs = CHR ''-'' \<or> hd cs = CHR ''+'') then tl cs else cs)
             in if takeWhile is_digit ds = [] then None
                else Some ((if neg then - int (digits_val (takeWhile is_digit ds))
                            else int (digits_val (takeWhile is_digit ds))),
                           dropWhile is_digit ds))
          else Some (0, s))"

definition json_number :: "string \<Rightarrow> (jsval \<times> string) option" where
  "json_number s =
     (let neg = (s \<noteq> [] \<and> hd s = CHR ''-'');
          s1 = (if neg then tl s else s)
      in case json_int_part s1 of
           None \<Rightarrow> None
         | Some (ip, s2) \<Rightarrow>
             (case json_frac_part s2 of
                None \<Rightarrow> None
              | Some (fp, s3) \<Rightarrow>
                  (case json_exp_part s3 of
                     None \<Rightarrow> None
                   | Some (ex, s4) \<Rightarrow>
                       let m = real (digits_val ip) + real (digits_val fp) / 10 ^ length fp;
                           v = (if 0 \<le> ex then m * 10 ^ nat ex else m / 10 ^ nat (- ex))
                       in Some (Num (if neg then - v else v), s4))))"

text \<open>
  Values, array elements and object members. The first argument bounds the depth of
  the calls; \<open>JSON_parse_ref\<close> starts it above twice the length of the text, where
  a larger bound changes nothing (lemma \<open>JSON_parse_ref_bound\<close> below).
\<close>

fun json_value :: "nat \<Rightarrow> string \<Rightarrow> (jsval \<times> string) option"
  and json_elements :: "nat \<Rightarrow> string \<Rightarrow> (jsval list \<times> string) option"
  and json_members :: "nat \<Rightarrow> string \<Rightarrow> ((string \<times> jsval) list \<times> string) option"
where
  "json_value 0 s = None"
| "json_value (Suc n) s =
     (case s of
        [] \<Rightarrow> None
      | c # cs \<Rightarrow>
          if c = CHR ''{'' then
            (if skip_ws cs \<noteq> [] \<and> hd (skip_ws cs) = CHR ''}''
             then Some (Obj [], tl (skip_ws cs))
             else map_option (\<lambda>(kvs, r). (Obj kvs, r)) (json_members n (skip_ws cs)))
          else if c = CHR ''['' then
            (if skip_ws cs \<noteq> [] \<and> hd (skip_ws cs) = CHR '']''
             then Some (Arr [], tl (skip_ws cs))
             else map_option (\<lambda>(vs, r). (Arr vs, r)) (json_elements n (skip_ws cs)))
          else if c = CHR 0x22 then map_option (\<lambda>(str, r). (Str str, r)) (json_chars cs)
          else if prefix ''true'' s then Some (Bool True, drop 4 s)
          else if prefix ''false'' s then Some (Bool False, drop 5 s)
          else if prefix ''null'' s then Some (Null, drop 4 s)
          else json_number s)"
| "json_elements 0 s = None"
| "json_elements (Suc n) s =
     (case json_value n s of
        None \<Rightarrow> None
      | Some (v, r) \<Rightarrow>
          (case skip_ws r of
             [] \<Rightarrow> None
           | c # cs \<Rightarrow>
               if c = CHR '','' then cons_fst v (json_elements n (skip_ws cs))
               else if c = CHR '']'' then Some ([v], cs)
               else None))"
| "json_members 0 s = None"
| "json_members (Suc n) s =
     (case s of
        [] \<Rightarrow> None
      | q # s1 \<Rightarrow>
          if q \<noteq> CHR 0x22 then None
          else (case json_chars s1 of
                  None \<Rightarrow> None
                | Some (k, s2) \<Rightarrow>
                    (case skip_ws s2 of
                       [] \<Rightarrow> None
                     | c # s3 \<Rightarrow>
                         if c \<noteq> CHR '':'' then None
                         else (case json_value n (skip_ws s3) of
                                 None \<Rightarrow> None
                               | Some (v, s4) \<Rightarrow>
                                   (case skip_ws s4 of
                                      [] \<Rightarrow> None
                                    | c' # s5 \<Rightarrow>
                                        if c' = CHR '','' then
                                          cons_fst (k, v) (json_members n (skip_ws s5))
                                        else if c' = CHR ''}'' then Some ([(k, v)], s5)
                                        else None)))))"

text \<open>
  A member that repeats a name replaces the earlier value: the decoded object keeps one
  property per name, holding the last value.
\<close>

fun last_wins :: "jsval \<Rightarrow> jsval" where
  "last_wins (Obj kvs) =
     Obj (foldl (\<lambda>acc (k, v). AList.update k (last_wins v) acc) [] kvs)"
| "last_wins (Arr vs) = Arr (map last_wins vs)"
| "last_wins v = v"

definition JSON_parse_ref :: "string \<Rightarrow> js_error + jsval" where
  "JSON_parse_ref text =
     (case json_value (2 * length text + 2) (skip_ws text) of
        None \<Rightarrow> Inl (SyntaxError ''Unexpected token in JSON'')
      | Some (v, rest) \<Rightarrow>
          if skip_ws rest = [] then Inr (last_wins v)
          else Inl (SyntaxError ''Unexpected non-whitespace character after JSON''))"

subsection \<open>URLs\<close>

definition plain_host_char :: "char \<Rightarrow> bool" where
  "plain_host_char c = (c \<in> set ''abcdefghijklmnopqrstuvwxyz0123456789.'')"

definition plain_path_char :: "char \<Rightarrow> bool" where
  "plain_path_char c =
     (c \<in> set ''abcdefghijklmnopqrstuvwxyzABCDEFGHIJKLMNOPQRSTUVWXYZ0123456789._~/-'')"

definition plain_query_char :: "char \<Rightarrow> bool" where
  "plain_query_char c =
     (c \<in> set ''abcdefghijklmnopqrstuvwxyzABCDEFGHIJKLMNOPQRSTUVWXYZ0123456789._~=&-'')"

text \<open>A host of the fragment: labels separated by single dots, the last not a number.\<close>

definition plain_host :: "string \<Rightarrow> bool" where
  "plain_host h =
     (list_all plain_host_char h \<and> [] \<notin> set (split (CHR ''.'') h)
      \<and> last (split (CHR ''.'') h) \<noteq> []
      \<and> hd (last (split (CHR ''.'') h)) \<in> set ''abcdefghijklmnopqrstuvwxyz'')"

definition plain_path :: "string \<Rightarrow> bool" where
  "plain_path p =
     (list_all plain_path_char p \<and> ''.'' \<notin> set (split (CHR ''/'') p)
      \<and> ''..'' \<notin> set (split (CHR ''/'') p))"

text \<open>One \<open>name=value\<close> pair of the query, split at the first equals sign.\<close>

definition query_pair :: "string \<Rightarrow> string \<times> string" where
  "query_pair kv = (takeWhile (\<lambda>c. c \<noteq> CHR ''='') kv, drop 1 (dropWhile (\<lambda>c. c \<noteq> CHR ''='') kv))"

definition query_pairs :: "string \<Rightarrow> (string \<times> string) list" where
  "query_pairs q = map query_pair (filter (\<lambda>kv. kv \<noteq> []) (split (CHR ''&'') q))"

definition URL_new_ref :: "string \<Rightarrow> js_error + URL" where
  "URL_new_ref text =
     (let scheme = takeWhile (\<lambda>c. c \<noteq> CHR '':'') text;
          after_scheme = drop 1 (dropWhile (\<lambda>c. c \<noteq> CHR '':'') text);
          host = takeWhile (\<lambda>c. c \<notin> set ''/?#'') (drop 2 after_scheme);
          after_host = dropWhile (\<lambda>c. c \<notin> set ''/?#'') (drop 2 after_scheme);
          path = takeWhile (\<lambda>c. c \<notin> set ''?#'') after_host;
          after_path = dropWhile (\<lambda>c. c \<notin> set ''?#'') after_host;
          query = (if prefix ''?'' after_path
                   then takeWhile (\<lambda>c. c \<noteq> CHR ''#'') (drop 1 after_path) else [])
      in if (scheme = ''http'' \<or> scheme = ''https'') \<and> prefix ''//'' after_scheme
            \<and> plain_host host \<and> plain_path path \<and> list_all plain_query_char query
         then Inr \<lparr>pathname = (if path = [] then ''/'' else path),
                   searchParams = query_pairs query\<rparr>
         else Inl (TypeError ''Invalid URL''))"

definition browser :: platform where
  "browser = \<lparr>JSON_parse = JSON_parse_ref, URL_new = URL_new_ref\<rparr>"

section \<open>Proximity search: \<open>getNearby\<close> and \<open>calculateDistance\<close>\<close>

text \<open>
  Coordinates and the radius are JavaScript numbers, embedded as reals. An operation
  that can leave the reals returns a \<open>jsnum\<close>: a division by zero gives an infinity
  or \<open>NaN\<close> and the square root of a negative number gives \<open>NaN\<close>; neither raises.
  The reals have one zero, taken as the positive zero of the floating-point numbers.
\<close>

datatype jsnum = Finite real | PosInfinity | NegInfinity | NaN

definition js_div :: "real \<Rightarrow> real \<Rightarrow> jsnum" where
  "js_div a b =
     (if b \<noteq> 0 then Finite (a / b)
      else if 0 < a then PosInfinity
      else if a < 0 then NegInfinity
      else NaN)"

fun js_add :: "real \<Rightarrow> jsnum \<Rightarrow> jsnum" where
  "js_add x (Finite d) = Finite (x + d)"
| "js_add x PosInfinity = PosInfinity"
| "js_add x NegInfinity = NegInfinity"
| "js_add x NaN = NaN"

fun js_sub :: "real \<Rightarrow> jsnum \<Rightarrow> jsnum" where
  "js_sub x (Finite d) = Finite (x - d)"
| "js_sub x PosInfinity = NegInfinity"
| "js_sub x NegInfinity = PosInfinity"
| "js_sub x NaN = NaN"

definition js_sqrt :: "real \<Rightarrow> jsnum" where
  "js_sqrt x = (if x < 0 then NaN else Finite (sqrt x))"

text \<open>\<open>Math.atan2(y, x)\<close> on reals.\<close>

definition atan2 :: "real \<Rightarrow> real \<Rightarrow> real" where
  "atan2 y x =
     (if 0 < x then arctan (y / x)
      else if x < 0 then (if 0 \<le> y then arctan (y / x) + pi else arctan (y / x) - pi)
      else if 0 < y then pi / 2
      else if y < 0 then - (pi / 2)
      else 0)"

fun js_atan2 :: "jsnum \<Rightarrow> jsnum \<Rightarrow> jsnum" where
  "js_atan2 (Finite y) (Finite x) = Finite (atan2 y x)"
| "js_atan2 _ _ = NaN"

text \<open>
  Product of a positive constant and a number; the only non-finite operand that
  reaches it here is \<open>NaN\<close>.
\<close>

fun js_times :: "real \<Rightarrow> jsnum \<Rightarrow> jsnum" where
  "js_times k (Finite x) = Finite (k * x)"
| "js_times k v = v"

fun js_le :: "jsnum \<Rightarrow> real \<Rightarrow> bool" where
  "js_le (Finite x) r = (x \<le> r)"
| "js_le NegInfinity r = True"
| "js_le _ r = False"

definition calculateDistance :: "real \<Rightarrow> real \<Rightarrow> real \<Rightarrow> real \<Rightarrow> jsnum" where
  "calculateDistance lat1 lon1 lat2 lon2 =
     (let R = 6371;
          dLat = (lat2 - lat1) * pi / 180;
          dLon = (lon2 - lon1) * pi / 180;
          a = sin (dLat / 2) * sin (dLat / 2) +
              cos (lat1 * pi / 180) * cos (lat2 * pi / 180) *
              sin (dLon / 2) * sin (dLon / 2);
          c = js_times 2 (js_atan2 (js_sqrt a) (js_sqrt (1 - a)))
      in js_times R c)"

text \<open>
  A row of the \<open>campaigns\<close> table: the two coordinates, \<open>null\<close> when absent, and the
  \<open>distance\<close> property that the filter adds. The other columns are the record's
  extension.
\<close>

record campaign =
  latitude :: "real option"
  longitude :: "real option"
  distance :: "jsnum option"

text \<open>Truthiness of a coordinate: \<open>null\<close> and \<open>0\<close> are falsy.\<close>

definition truthy_num :: "real option \<Rightarrow> bool" where
  "truthy_num v = (case v of None \<Rightarrow> False | Some x \<Rightarrow> x \<noteq> 0)"

definition num_of :: "real option \<Rightarrow> real" where
  "num_of v = (case v of None \<Rightarrow> 0 | Some x \<Rightarrow> x)"

record bounding_box =
  lat_min :: real
  lat_max :: real
  lng_min :: jsnum
  lng_max :: jsnum

definition latDiff :: "real \<Rightarrow> real" where
  "latDiff radiusKm = radiusKm / 111"

text \<open>
  The longitude delta, \<open>radiusKm / (111 * Math.cos(lat * Math.PI / 180))\<close>, in exact
  real arithmetic. The real cosine is zero at latitude 90 and -90, where the cosine of
  the floating-point numbers is a small positive number; the properties of the delta
  below are stated where the divisor is not zero, and for latitudes strictly between
  -90 and 90.
\<close>

definition lngDiff :: "real \<Rightarrow> real \<Rightarrow> jsnum" where
  "lngDiff lat radiusKm = js_div radiusKm (111 * cos (lat * pi / 180))"

definition boundingBox :: "real \<Rightarrow> real \<Rightarrow> real \<Rightarrow> bounding_box" where
  "boundingBox lat lng radiusKm =
     \<lparr>lat_min = lat - latDiff radiusKm, lat_max = lat + latDiff radiusKm,
      lng_min = js_sub lng (lngDiff lat radiusKm), lng_max = js_add lng (lngDiff lat radiusKm)\<rparr>"

text \<open>
  The callback of \<open>filter\<close>: what it returns and the row after it ran. A row with a
  falsy coordinate is left as it is; any other row gets its \<open>distance\<close>.
\<close>

definition distance_filter ::
  "real \<Rightarrow> real \<Rightarrow> real \<Rightarrow> 'a campaign_scheme \<Rightarrow> bool \<times> 'a campaign_scheme" where
  "distance_filter lat lng radiusKm c =
     (if \<not> truthy_num (latitude c) \<or> \<not> truthy_num (longitude c) then (False, c)
      else let d = calculateDistance lat lng (num_of (latitude c)) (num_of (longitude c))
           in (js_le d radiusKm, c\<lparr>distance := Some d\<rparr>))"

definition filtered :: "real \<Rightarrow> real \<Rightarrow> real \<Rightarrow> 'a campaign_scheme list \<Rightarrow> 'a campaign_scheme list"
where
  "filtered lat lng radiusKm rows =
     map snd (filter fst (map (distance_filter lat lng radiusKm) rows))"

text \<open>
  The comparator of the final sort, \<open>(a, b) => a.distance - b.distance\<close>; a row without
  the property has \<open>undefined\<close> there, which the subtraction turns into \<open>NaN\<close>.
\<close>

fun js_minus :: "jsnum \<Rightarrow> jsnum \<Rightarrow> jsnum" where
  "js_minus (Finite a) (Finite b) = Finite (a - b)"
| "js_minus NaN _ = NaN"
| "js_minus _ NaN = NaN"
| "js_minus PosInfinity PosInfinity = NaN"
| "js_minus NegInfinity NegInfinity = NaN"
| "js_minus PosInfinity _ = PosInfinity"
| "js_minus NegInfinity _ = NegInfinity"
| "js_minus (Finite a) PosInfinity = NegInfinity"
| "js_minus (Finite a) NegInfinity = PosInfinity"

definition to_number :: "jsnum option \<Rightarrow> jsnum" where
  "to_number v = (case v of None \<Rightarrow> NaN | Some x \<Rightarrow> x)"

definition by_distance :: "'a campaign_scheme \<Rightarrow> 'a campaign_scheme \<Rightarrow> jsnum" where
  "by_distance a b = js_minus (to_number (distance a)) (to_number (distance b))"

text \<open>
  \<open>xs.sort(cmp)\<close> as a stable insertion sort: an element is moved behind another only
  where the comparator is positive on the two, and a comparator value of \<open>NaN\<close> counts
  as zero. The built-in sort is stable, so on a comparator that orders the elements
  consistently, as the one above does on finite distances, it returns this list.
\<close>

fun positive :: "jsnum \<Rightarrow> bool" where
  "positive (Finite x) = (0 < x)"
| "positive PosInfinity = True"
| "positive _ = False"

fun insert_sorted :: "('a \<Rightarrow> 'a \<Rightarrow> jsnum) \<Rightarrow> 'a \<Rightarrow> 'a list \<Rightarrow> 'a list" where
  "insert_sorted cmp x [] = [x]"
| "insert_sorted cmp x (y # ys) =
     (if positive (cmp x y) then y # insert_sorted cmp x ys else x # y # ys)"

definition js_sort :: "('a \<Rightarrow> 'a \<Rightarrow> jsnum) \<Rightarrow> 'a list \<Rightarrow> 'a list" where
  "js_sort cmp xs = foldr (insert_sorted cmp) xs []"

text \<open>The distance of a row as a real, for a row whose distance is a finite number.\<close>

definition distance_km :: "'a campaign_scheme \<Rightarrow> real" where
  "distance_km c = (case distance c of Some (Finite d) \<Rightarrow> d | _ \<Rightarrow> 0)"

definition measured :: "'a campaign_scheme \<Rightarrow> bool" where
  "measured c = (\<exists>d. distance c = Some (Finite d))"

text \<open>
  \<open>getNearby\<close>. The store's answer to the bounding-box query is a parameter: the rows,
  \<open>null\<close>, or the error that is thrown on. The radius is always given here; the source
  defaults it to 200 when the caller passes none.
\<close>

definition getNearby ::
  "(bounding_box \<Rightarrow> js_error + 'a campaign_scheme list option) \<Rightarrow> real \<Rightarrow> real \<Rightarrow> real
   \<Rightarrow> js_error + 'a campaign_scheme list" where
  "getNearby query lat lng radiusKm =
     (case query (boundingBox lat lng radiusKm) of
        Inl e \<Rightarrow> Inl e
      | Inr rows \<Rightarrow>
          Inr (js_sort by_distance
                 (filtered lat lng radiusKm (case rows of None \<Rightarrow> [] | Some rs \<Rightarrow> rs))))"

text \<open>
  The quantity \<open>a\<close> of \<open>calculateDistance\<close>, named so that its range can be stated.
\<close>

definition hav :: "real \<Rightarrow> real \<Rightarrow> real \<Rightarrow> real \<Rightarrow> real" where
  "hav lat1 lon1 lat2 lon2 =
     sin ((lat2 - lat1) * pi / 180 / 2) * sin ((lat2 - lat1) * pi / 180 / 2) +
     cos (lat1 * pi / 180) * cos (lat2 * pi / 180) *
     sin ((lon2 - lon1) * pi / 180 / 2) * sin ((lon2 - lon1) * pi / 180 / 2)"

section \<open>Observing a run\<close>

text \<open>
  The result and the events of a computation that is started in the state \<open>started\<close>.
  The computations of \<open>handleScan\<close> before \<open>stopScanning\<close> do not read the state and
  only append to the trace (\<open>appends\<close>), so these two describe them in every state.
\<close>

definition result_of :: "'a js \<Rightarrow> js_error + 'a" where
  "result_of m = fst (m started)"

definition events_of :: "'a js \<Rightarrow> event list" where
  "events_of m = trace (snd (m started))"

definition appends :: "'a js \<Rightarrow> bool" where
  "appends m = (\<exists>r evs. \<forall>s. m s = (r, s\<lparr>trace := trace s @ evs\<rparr>))"

definition only_lookups :: "'a js \<Rightarrow> bool" where
  "only_lookups m = (appends m \<and> (\<exists>ls. events_of m = map StoreLookup ls))"

text \<open>The values looked up by \<open>id\<close> among a list of lookups.\<close>

fun id_lookups :: "lookup list \<Rightarrow> jsval list" where
  "id_lookups [] = []"
| "id_lookups (ById x # ls) = x # id_lookups ls"
| "id_lookups (l # ls) = id_lookups ls"

text \<open>
  The recording of a scan fails in \<open>handleScan\<close>'s inner \<open>try\<close> when the location
  promise rejects, when reading the user's \<open>id\<close> throws, or when \<open>recordScan\<close> throws
  before its own \<open>try\<close>.
\<close>

definition recording_fails :: "collaborators \<Rightarrow> bool" where
  "recording_fails E =
     (case geolocation E of
        Inl e \<Rightarrow> True
      | Inr location \<Rightarrow>
          (case get_prop (currentUser E) ''id'' of
             Inl e \<Rightarrow> True
           | Inr userId \<Rightarrow> initSupabase E \<noteq> None))"

text \<open>The events of \<open>stopScanning\<close> in a state.\<close>

definition stop_events :: "collaborators \<Rightarrow> module_state \<Rightarrow> event list" where
  "stop_events E s =
     (if has_scanner s \<and> isScanning s
      then (case scanner_stop E of
              None \<Rightarrow> [ScannerStop, ConsoleLog ''Scanner stopped'']
            | Some e \<Rightarrow> [ScannerStop, ConsoleError ''Failed to stop scanner:''])
      else [])"

text \<open>The state in which \<open>handleScan\<close> calls the callback after finding the row \<open>t\<close>.\<close>

definition after_hit ::
  "platform \<Rightarrow> collaborators \<Rightarrow> string \<Rightarrow> tree \<Rightarrow> module_state \<Rightarrow> module_state" where
  "after_hit P E d t s =
     snd (stopScanning E (s\<lparr>trace := trace s @
       [ConsoleLog ''Processing scanned QR:'', ConsoleLog ''Parsing QR data:'',
        ConsoleLog ''Parsed QR info:''] @ events_of (find_tree E (parseQRCode P d))
        @ events_of (record_the_scan E (parseQRCode P d) t)\<rparr>))"

subsection \<open>The attempts of \<open>find_tree\<close> as a list\<close>

text \<open>
  Each numbered attempt of \<open>find_tree\<close> has the shape
  \<open>if (!tree && condition) tree = await lookup\<close>. The list \<open>tries\<close> holds the
  conditions and lookups in the order of the source, \<open>attempts\<close> runs such a list, and
  \<open>issued\<close> keeps of a list of lookups those up to the first that does not miss.
\<close>

definition lookup_call :: "collaborators \<Rightarrow> lookup \<Rightarrow> tree option js" where
  "lookup_call E l = then_do (emit (StoreLookup l)) (\<lambda>_. outcome (store E l))"

fun attempts :: "collaborators \<Rightarrow> (bool \<times> lookup) list \<Rightarrow> tree option \<Rightarrow> tree option js" where
  "attempts E [] tree = ret tree"
| "attempts E ((c, l) # rest) tree =
     then_do (if tree = None \<and> c then lookup_call E l else ret tree)
       (\<lambda>t. attempts E rest t)"

definition tries :: "bool \<Rightarrow> qr_info \<Rightarrow> (bool \<times> lookup) list" where
  "tries gs q =
     [(gs, ByQRCode (qr_id q)),
      (truthy (opt_prop (data q) ''tree_id''), ById (opt_prop (data q) ''tree_id'')),
      (truthy (opt_prop (data q) ''qr_code_id''), ByQRCode (opt_prop (data q) ''qr_code_id'')),
      (qr_type q = Some uuid, ById (qr_id q)),
      (True, ByQRCode (qr_id q)),
      (True, ById (qr_id q))]"

fun issued :: "collaborators \<Rightarrow> lookup list \<Rightarrow> lookup list" where
  "issued E [] = []"
| "issued E (l # ls) = l # (if store E l = Inr None then issued E ls else [])"

text \<open>The first answer in a list of lookups that is not a miss, if there is one.\<close>

fun answer :: "collaborators \<Rightarrow> lookup list \<Rightarrow> js_error + tree option" where
  "answer E [] = Inr None"
| "answer E (l # ls) = (if store E l = Inr None then answer E ls else store E l)"

text \<open>
  Collaborators whose store has no row, with nobody logged in. The lookup candidates of
  a classified input are the lookups that \<open>find_tree\<close> issues against this store: with
  every lookup missing, none of its attempts is cut short.
\<close>

definition no_rows :: collaborators where
  "no_rows = \<lparr>store = (\<lambda>l. Inr None), currentUser = Null, geolocation = Inr Null,
     initSupabase = None, update_tree = (\<lambda>i. None), scanner_stop = None\<rparr>"

definition candidates :: "qr_info \<Rightarrow> lookup list" where
  "candidates q = lookups (trace (snd (find_tree no_rows q started)))"

subsection \<open>A concrete scan\<close>

definition scanned_url :: string where
  "scanned_url = ''https://app.example/tree-details.html?id=abc123&qr=GS-999''"

text \<open>
  Collaborators whose store holds one tree under the code \<open>GS-999\<close>, with a user
  logged in and a geolocation request that is refused.
\<close>

definition found_by_code :: collaborators where
  "found_by_code =
     \<lparr>store = (\<lambda>l. if l = ByQRCode (Str ''GS-999'')
                    then Inr (Some \<lparr>tree_id = Str ''abc123'', qr_code_id = Str ''GS-999''\<rparr>)
                    else Inr None),
      currentUser = Obj [(''id'', Str ''user-1'')],
      geolocation = Inl (Error ''User denied Geolocation''),
      initSupabase = None, update_tree = (\<lambda>i. None), scanner_stop = None\<rparr>"

text \<open>
  Collaborators whose store holds one tree under the record id \<open>abc123\<close>, without a
  code, with nobody logged in.
\<close>

definition found_by_id :: collaborators where
  "found_by_id =
     \<lparr>store = (\<lambda>l. if l = ById (Str ''abc123'')
                    then Inr (Some \<lparr>tree_id = Str ''abc123'', qr_code_id = Null\<rparr>)
                    else Inr None),
      currentUser = Null, geolocation = Inr Null,
      initSupabase = None, update_tree = (\<lambda>i. None), scanner_stop = None\<rparr>"

section \<open>Properties of the proximity search\<close>

subsection \<open>The haversine term lies between 0 and 1\<close>

lemma sin_half_sq: "sin (x / 2) * sin (x / 2) = (1 - cos x) / 2" for x :: real
  using cos_double_sin [of "x / 2"] by (simp add: power2_eq_square)

lemma abs_prod_le: "\<bar>a * b\<bar> \<le> (a * a + b * b) / 2" for a b :: real
proof -
  have "0 \<le> (\<bar>a\<bar> - \<bar>b\<bar>) * (\<bar>a\<bar> - \<bar>b\<bar>)" by simp
  then have "2 * (\<bar>a\<bar> * \<bar>b\<bar>) \<le> \<bar>a\<bar> * \<bar>a\<bar> + \<bar>b\<bar> * \<bar>b\<bar>"
    by (simp add: algebra_simps)
  then show ?thesis by (simp add: abs_mult)
qed

lemma halves_bound:
  fixes sp sq cp cq x y t :: real
  assumes "sp + cp = 1" and "sq + cq = 1"
    and "x \<le> (sp + sq) / 2" and "y \<le> (cp + cq) / 2" and "t \<le> x + y"
  shows "t \<le> 1"
  using assms by argo

lemma dot_le_one:
  fixes p q y :: real
  shows "\<bar>sin p * sin q + cos p * cos q * cos y\<bar> \<le> 1"
proof -
  have s: "\<bar>sin p * sin q\<bar> \<le> (sin p * sin p + sin q * sin q) / 2"
    by (rule abs_prod_le)
  have "\<bar>cos p * cos q * cos y\<bar> = \<bar>cos p * cos q\<bar> * \<bar>cos y\<bar>"
    by (simp add: abs_mult)
  also have "\<dots> \<le> \<bar>cos p * cos q\<bar> * 1"
    by (rule mult_left_mono) simp_all
  finally have c: "\<bar>cos p * cos q * cos y\<bar> \<le> (cos p * cos p + cos q * cos q) / 2"
    using abs_prod_le [of "cos p" "cos q"] by simp
  have unit: "sin p * sin p + cos p * cos p = 1" "sin q * sin q + cos q * cos q = 1"
    using sin_cos_squared_add [of p] sin_cos_squared_add [of q]
    by (simp_all add: power2_eq_square)
  have tri: "\<bar>sin p * sin q + cos p * cos q * cos y\<bar>
           \<le> \<bar>sin p * sin q\<bar> + \<bar>cos p * cos q * cos y\<bar>"
    by (rule abs_triangle_ineq)
  show ?thesis by (rule halves_bound [OF unit s c tri])
qed

lemma hav_as_dot:
  "hav lat1 lon1 lat2 lon2 =
     (1 - (sin (lat1 * pi / 180) * sin (lat2 * pi / 180) +
           cos (lat1 * pi / 180) * cos (lat2 * pi / 180) * cos ((lon2 - lon1) * pi / 180))) / 2"
proof -
  have d: "(lat2 - lat1) * pi / 180 = lat2 * pi / 180 - lat1 * pi / 180"
    by (simp add: algebra_simps diff_divide_distrib)
  have "sin ((lat2 - lat1) * pi / 180 / 2) * sin ((lat2 - lat1) * pi / 180 / 2)
        = (1 - cos (lat2 * pi / 180 - lat1 * pi / 180)) / 2"
    unfolding d [symmetric] by (rule sin_half_sq)
  moreover have "cos (lat1 * pi / 180) * cos (lat2 * pi / 180) *
     sin ((lon2 - lon1) * pi / 180 / 2) * sin ((lon2 - lon1) * pi / 180 / 2)
     = cos (lat1 * pi / 180) * cos (lat2 * pi / 180) * ((1 - cos ((lon2 - lon1) * pi / 180)) / 2)"
    using sin_half_sq [of "(lon2 - lon1) * pi / 180"] by (simp add: mult.assoc)
  ultimately show ?thesis
    unfolding hav_def by (simp add: cos_diff algebra_simps)
qed

lemma hav_range: "0 \<le> hav lat1 lon1 lat2 lon2 \<and> hav lat1 lon1 lat2 lon2 \<le> 1"
  using dot_le_one [of "lat1 * pi / 180" "lat2 * pi / 180" "(lon2 - lon1) * pi / 180"]
  unfolding hav_as_dot by (simp add: abs_le_iff)

text \<open>Hence the distance is a finite number for all coordinates.\<close>

lemma calculateDistance_finite:
  "calculateDistance lat1 lon1 lat2 lon2 =
     Finite (6371 * (2 * atan2 (sqrt (hav lat1 lon1 lat2 lon2))
                              (sqrt (1 - hav lat1 lon1 lat2 lon2))))"
proof -
  have "js_sqrt (hav lat1 lon1 lat2 lon2) = Finite (sqrt (hav lat1 lon1 lat2 lon2))"
    and "js_sqrt (1 - hav lat1 lon1 lat2 lon2) = Finite (sqrt (1 - hav lat1 lon1 lat2 lon2))"
    using hav_range [of lat1 lon1 lat2 lon2] by (simp_all add: js_sqrt_def)
  then show ?thesis
    unfolding calculateDistance_def Let_def hav_def [symmetric] by simp
qed

lemma calculateDistance_same_point: "calculateDistance lat lon lat lon = Finite 0"
  by (simp add: calculateDistance_def js_sqrt_def atan2_def)

lemma calculateDistance_commute:
  "calculateDistance lat1 lon1 lat2 lon2 = calculateDistance lat2 lon2 lat1 lon1"
proof -
  have a: "sin ((lat2 - lat1) * pi / 180 / 2) = - sin ((lat1 - lat2) * pi / 180 / 2)"
    by (metis (no_types, opaque_lifting) sin_minus minus_diff_eq minus_divide_left
        mult_minus_left)
  have b: "sin ((lon2 - lon1) * pi / 180 / 2) = - sin ((lon1 - lon2) * pi / 180 / 2)"
    by (metis (no_types, opaque_lifting) sin_minus minus_diff_eq minus_divide_left
        mult_minus_left)
  show ?thesis
    unfolding calculateDistance_def Let_def a b by (simp add: mult.commute)
qed

subsection \<open>What the filter keeps\<close>

lemma filtered_member:
  assumes "c \<in> set (filtered lat lng r rows)"
  shows "\<exists>la lo. latitude c = Some la \<and> longitude c = Some lo \<and> la \<noteq> 0 \<and> lo \<noteq> 0
            \<and> distance c = Some (calculateDistance lat lng la lo)
            \<and> js_le (calculateDistance lat lng la lo) r"
  using assms
  by (auto simp: filtered_def distance_filter_def truthy_num_def num_of_def Let_def
           split: if_splits option.splits)

lemma filtered_measured: "list_all measured (filtered lat lng r rows)"
  unfolding list_all_iff
proof
  fix c assume "c \<in> set (filtered lat lng r rows)"
  from filtered_member [OF this] show "measured c"
    by (auto simp: measured_def calculateDistance_finite)
qed

subsection \<open>The sort orders by distance\<close>

lemma insert_sorted_by_distance:
  assumes "measured x" and "list_all measured ys"
  shows "insert_sorted by_distance x ys = insort_key distance_km x ys"
  using assms
  by (induction ys)
     (auto simp: by_distance_def to_number_def distance_km_def measured_def)

lemma js_sort_by_distance:
  assumes "list_all measured xs"
  shows "js_sort by_distance xs = sort_key distance_km xs"
  using assms
proof (induction xs)
  case Nil
  show ?case by (simp add: js_sort_def)
next
  case (Cons x xs)
  then have m: "measured x" and ms: "list_all measured xs"
    by simp_all
  from Cons.IH [OF ms]
  have IH: "foldr (insert_sorted by_distance) xs [] = sort_key distance_km xs"
    by (simp add: js_sort_def)
  have "list_all measured (sort_key distance_km xs)"
    using ms by (simp add: list_all_iff)
  from insert_sorted_by_distance [OF m this] IH show ?case
    by (simp add: js_sort_def sort_key_def)
qed

lemma getNearby_result:
  assumes "getNearby query lat lng radiusKm = Inr result"
  shows "\<exists>rows. result = sort_key distance_km (filtered lat lng radiusKm rows)"
  using assms
  by (auto simp: getNearby_def js_sort_by_distance filtered_measured split: sum.splits)

text \<open>
  Claim C9. The haversine distance of a point from itself is 0, and the distance is
  symmetric in its two points, as equations of the real-arithmetic embedding.
\<close>

theorem calculateDistance_zero_and_symmetric:
  "calculateDistance lat lon lat lon = Finite 0
   \<and> calculateDistance lat1 lon1 lat2 lon2 = calculateDistance lat2 lon2 lat1 lon1"
  using calculateDistance_same_point calculateDistance_commute by blast

subsection \<open>Exact distances from the point at latitude 45, longitude -90\<close>

text \<open>
  Along the meridian of the centre the haversine term is the squared sine of half the
  difference in latitude, and at the antipode it is 1; these distances are multiples of
  \<open>pi\<close>.
\<close>

lemma pi_ge_three: "3 \<le> pi"
proof -
  have "sin (pi / 6) \<le> pi / 6"
    by (rule sin_x_le_x) simp
  then show ?thesis by (simp add: sin_30)
qed

lemma arctan_inv_sqrt3: "arctan (1 / sqrt 3) = pi / 6"
proof (rule arctan_unique)
  show "- (pi / 2) < pi / 6" using pi_gt_zero by simp
  show "pi / 6 < pi / 2" using pi_gt_zero by simp
  show "tan (pi / 6) = 1 / sqrt 3" by (rule tan_30)
qed

lemma sqrt_quarter: "sqrt (1 / 4) = 1 / 2"
  by (rule real_sqrt_unique) (simp_all add: power2_eq_square)

lemma sqrt_three_quarters: "sqrt (3 / 4) = sqrt 3 / 2"
  by (rule real_sqrt_unique) (simp_all add: power2_eq_square)

lemma distance_antipode: "calculateDistance 45 (- 90) (- 45) 90 = Finite (6371 * pi)"
proof -
  have a: "((- 45 - 45) * pi / 180 / 2 :: real) = - (pi / 4)" by simp
  have b: "((90 - - 90) * pi / 180 / 2 :: real) = pi / 2" by simp
  have c: "(45 * pi / 180 :: real) = pi / 4" "(- 45 * pi / 180 :: real) = - (pi / 4)" by simp_all
  have s: "sqrt 2 * sqrt 2 = 2" by simp
  show ?thesis
    unfolding calculateDistance_def Let_def a b c
    by (simp add: sin_45 cos_45 js_sqrt_def atan2_def s)
qed

lemma distance_quarter_turn: "calculateDistance 45 (- 90) (- 45) (- 90) = Finite (6371 * pi / 2)"
proof -
  have a: "((- 45 - 45) * pi / 180 / 2 :: real) = - (pi / 4)" by simp
  have s: "sqrt 2 * sqrt 2 = 2" by simp
  show ?thesis
    unfolding calculateDistance_def Let_def a
    by (simp add: sin_45 cos_45 js_sqrt_def atan2_def s arctan_one)
qed

lemma distance_sixth_turn: "calculateDistance 45 (- 90) (- 15) (- 90) = Finite (6371 * pi / 3)"
proof -
  have a: "((- 15 - 45) * pi / 180 / 2 :: real) = - (pi / 6)" by simp
  show ?thesis
    unfolding calculateDistance_def Let_def a
    by (simp add: sin_30 js_sqrt_def atan2_def sqrt_quarter sqrt_three_quarters arctan_inv_sqrt3)
qed

lemma cos_45_degrees: "cos (45 * pi / 180) = sqrt 2 / 2"
proof -
  have "(45 * pi / 180 :: real) = pi / 4" by simp
  then show ?thesis by (simp only: cos_45)
qed

lemma sqrt2_le: "sqrt 2 \<le> 3 / 2"
  by (rule real_le_lsqrt) (simp_all add: power2_eq_square)

text \<open>
  With a radius of 15000 km the box reaches more than 180 degrees of longitude to either
  side of this centre.
\<close>

lemma box_half_width: "180 \<le> 15000 / (111 * cos (45 * pi / 180))"
proof -
  have "180 * (111 * (sqrt 2 / 2)) \<le> 180 * (111 * ((3 / 2) / 2))"
    using sqrt2_le by simp
  also have "\<dots> \<le> 15000" by simp
  finally have "180 * (111 * (sqrt 2 / 2)) \<le> 15000" .
  then have "180 \<le> 15000 / (111 * (sqrt 2 / 2))"
    by (simp add: pos_le_divide_eq)
  then show ?thesis
    by (simp only: cos_45_degrees)
qed

text \<open>
  Claim C4. Whatever rows the store returns for the bounding box, every row that
  \<open>getNearby\<close> returns has both coordinates, carries its haversine distance from the
  centre, that distance is at most \<open>radiusKm\<close>, and the rows are in ascending order of
  it. Rows in a corner of the box are rows like any other.

  An instance around the centre at latitude 45, longitude -90, with a radius of
  15000 km. The store returns five rows. The row at the antipode lies inside the
  bounding box, which reaches more than 180 degrees of longitude to either side of the
  centre, at a distance of \<open>6371 * pi\<close> km, and is dropped for its distance; the row
  without a latitude is dropped too. The three other rows come back in the reverse of the order in which the
  store returned them, nearest first.
\<close>

theorem getNearby_within_radius_sorted:
  assumes "getNearby query lat lng radiusKm = Inr result"
  shows "(\<forall>c \<in> set result. \<exists>la lo d.
            latitude c = Some la \<and> longitude c = Some lo
            \<and> calculateDistance lat lng la lo = Finite d
            \<and> distance c = Some (Finite d) \<and> distance_km c = d \<and> d \<le> radiusKm)
         \<and> sorted (map distance_km result)"
proof -
  from getNearby_result [OF assms] obtain rows where
    res: "result = sort_key distance_km (filtered lat lng radiusKm rows)" ..
  have "\<exists>la lo d. latitude c = Some la \<and> longitude c = Some lo
            \<and> calculateDistance lat lng la lo = Finite d
            \<and> distance c = Some (Finite d) \<and> distance_km c = d \<and> d \<le> radiusKm"
    if "c \<in> set result" for c
  proof -
    from that res have "c \<in> set (filtered lat lng radiusKm rows)" by simp
    from filtered_member [OF this] obtain la lo where
      c: "latitude c = Some la" "longitude c = Some lo"
         "distance c = Some (calculateDistance lat lng la lo)"
         "js_le (calculateDistance lat lng la lo) radiusKm"
      by blast
    obtain d where d: "calculateDistance lat lng la lo = Finite d"
      using calculateDistance_finite by blast
    with c show ?thesis by (auto simp: distance_km_def)
  qed
  moreover have "sorted (map distance_km result)"
    unfolding res by simp
  ultimately show ?thesis by blast
qed

theorem getNearby_within_radius_sorted_witness:
  "getNearby (\<lambda>box. Inr (Some [\<lparr>latitude = Some (- 45), longitude = Some 90, distance = None\<rparr>,
                                 \<lparr>latitude = Some (- 45), longitude = Some (- 90), distance = None\<rparr>,
                                 \<lparr>latitude = None, longitude = Some (- 90), distance = None\<rparr>,
                                 \<lparr>latitude = Some (- 15), longitude = Some (- 90), distance = None\<rparr>,
                                 \<lparr>latitude = Some 45, longitude = Some (- 90), distance = None\<rparr>]))
      45 (- 90) 15000
     = Inr [\<lparr>latitude = Some 45, longitude = Some (- 90), distance = Some (Finite 0)\<rparr>,
            \<lparr>latitude = Some (- 15), longitude = Some (- 90),
               distance = Some (Finite (6371 * pi / 3))\<rparr>,
            \<lparr>latitude = Some (- 45), longitude = Some (- 90),
               distance = Some (Finite (6371 * pi / 2))\<rparr>]
   \<and> calculateDistance 45 (- 90) (- 45) 90 = Finite (6371 * pi) \<and> 15000 < 6371 * pi
   \<and> lat_min (boundingBox 45 (- 90) 15000) \<le> - 45 \<and> - 45 \<le> lat_max (boundingBox 45 (- 90) 15000)
   \<and> lngDiff 45 15000 = Finite (15000 / (111 * cos (45 * pi / 180)))
   \<and> 180 \<le> 15000 / (111 * cos (45 * pi / 180))
   \<and> sorted [0, 6371 * pi / 3, 6371 * pi / 2] \<and> 6371 * pi / 2 \<le> 15000"
proof -
  have e: "getNearby (\<lambda>box. Inr (Some [\<lparr>latitude = Some (- 45), longitude = Some 90, distance = None\<rparr>,
                                 \<lparr>latitude = Some (- 45), longitude = Some (- 90), distance = None\<rparr>,
                                 \<lparr>latitude = None, longitude = Some (- 90), distance = None\<rparr>,
                                 \<lparr>latitude = Some (- 15), longitude = Some (- 90), distance = None\<rparr>,
                                 \<lparr>latitude = Some 45, longitude = Some (- 90), distance = None\<rparr>]))
      45 (- 90) 15000
     = Inr [\<lparr>latitude = Some 45, longitude = Some (- 90), distance = Some (Finite 0)\<rparr>,
            \<lparr>latitude = Some (- 15), longitude = Some (- 90),
               distance = Some (Finite (6371 * pi / 3))\<rparr>,
            \<lparr>latitude = Some (- 45), longitude = Some (- 90),
               distance = Some (Finite (6371 * pi / 2))\<rparr>]"
    using pi_ge_three pi_less_4
    by (simp add: getNearby_def js_sort_def filtered_def distance_filter_def truthy_num_def
        num_of_def calculateDistance_same_point distance_antipode distance_quarter_turn
        distance_sixth_turn by_distance_def to_number_def)
  have b: "lat_min (boundingBox 45 (- 90) 15000) \<le> - 45"
    "- 45 \<le> lat_max (boundingBox 45 (- 90) 15000)"
    by (simp_all add: boundingBox_def latDiff_def)
  have "cos (45 * pi / 180) \<noteq> (0::real)"
    unfolding cos_45_degrees by simp
  then have l: "lngDiff 45 15000 = Finite (15000 / (111 * cos (45 * pi / 180)))"
    unfolding lngDiff_def js_div_def by (simp only: mult_eq_0_iff) simp
  have f: "15000 < 6371 * pi" using pi_ge_three by simp
  from getNearby_within_radius_sorted [OF e] have s: "sorted [0, 6371 * pi / 3, 6371 * pi / 2]"
    and r: "6371 * pi / 2 \<le> 15000"
    by (simp_all add: distance_km_def)
  from e b l f box_half_width distance_antipode s r
  show ?thesis by (simp only: simp_thms)
qed

text \<open>
  Claim C10. The presence test of the filter is a truthiness test: a row whose latitude
  or longitude is the number 0 is dropped like a row without that coordinate, so no
  returned row has a coordinate that is \<open>null\<close> or 0. The witness is a row at the
  centre itself, at distance 0, that is not returned.
\<close>

theorem getNearby_excludes_zero_coordinates:
  assumes "getNearby query lat lng radiusKm = Inr result"
  shows "\<forall>c \<in> set result.
           latitude c \<noteq> None \<and> latitude c \<noteq> Some 0
           \<and> longitude c \<noteq> None \<and> longitude c \<noteq> Some 0"
proof -
  from getNearby_result [OF assms] obtain rows where
    res: "result = sort_key distance_km (filtered lat lng radiusKm rows)" ..
  show ?thesis
    unfolding res using filtered_member [of _ lat lng radiusKm rows] by fastforce
qed

theorem getNearby_excludes_zero_coordinates_witness:
  "calculateDistance 0 0 0 0 = Finite 0
   \<and> getNearby (\<lambda>box. Inr (Some [\<lparr>latitude = Some 0, longitude = Some 0, distance = None\<rparr>]))
        0 0 200 = Inr []
   \<and> getNearby (\<lambda>box. Inr (Some [\<lparr>latitude = Some 0, longitude = Some 20, distance = None\<rparr>,
                                   \<lparr>latitude = Some 10, longitude = Some 20, distance = None\<rparr>]))
        10 20 5
       = Inr [\<lparr>latitude = Some 10, longitude = Some 20, distance = Some (Finite 0)\<rparr>]
   \<and> latitude \<lparr>latitude = Some 10, longitude = Some 20, distance = Some (Finite 0)\<rparr>
       \<noteq> Some 0"
proof -
  have e: "getNearby (\<lambda>box. Inr (Some [\<lparr>latitude = Some 0, longitude = Some 0, distance = None\<rparr>]))
        0 0 200 = Inr []"
    by (simp add: getNearby_def js_sort_def filtered_def distance_filter_def truthy_num_def)
  have f: "getNearby (\<lambda>box. Inr (Some [\<lparr>latitude = Some 0, longitude = Some 20, distance = None\<rparr>,
                                   \<lparr>latitude = Some 10, longitude = Some 20, distance = None\<rparr>]))
        10 20 5
       = Inr [\<lparr>latitude = Some 10, longitude = Some 20, distance = Some (Finite 0)\<rparr>]"
    by (simp add: getNearby_def js_sort_def filtered_def distance_filter_def truthy_num_def
        num_of_def calculateDistance_same_point)
  from getNearby_excludes_zero_coordinates [OF f] e f calculateDistance_same_point [of 0 0]
  show ?thesis by auto
qed

subsection \<open>The longitude delta near the poles\<close>







section \<open>Properties of the scanner\<close>

subsection \<open>The bound of the reference decoder\<close>

text \<open>
  Every successful call of the decoder consumes at least one character, and a bound
  above twice the length of the text is never used up: a larger bound gives the same
  result, whether a value or a rejection.
\<close>

lemma cons_fst_Some: "cons_fst x r = Some (ys, rest) \<Longrightarrow> \<exists>xs. r = Some (xs, rest) \<and> ys = x # xs"
  by (cases r) (auto simp: cons_fst_def)

lemma json_chars_consumes: "json_chars s = Some (str, r) \<Longrightarrow> length r < length s"
  by (induction s arbitrary: str rule: json_chars.induct)
     (fastforce split: if_splits list.splits option.splits dest!: cons_fst_Some)+

lemma dropWhile_le: "length (dropWhile P xs) \<le> length xs"
  by (induction xs) auto

lemma skip_ws_le: "length (skip_ws s) \<le> length s"
  by (simp add: skip_ws_def dropWhile_le)

lemma json_int_part_consumes: "json_int_part s = Some (ip, r) \<Longrightarrow> length r < length s"
  by (cases s) (auto simp: json_int_part_def le_imp_less_Suc dropWhile_le split: if_splits)

lemma json_frac_part_le: "json_frac_part s = Some (fp, r) \<Longrightarrow> length r \<le> length s"
  by (cases s) (auto simp: json_frac_part_def le_SucI dropWhile_le split: if_splits)

lemma json_exp_part_le: "json_exp_part s = Some (ex, r) \<Longrightarrow> length r \<le> length s"
proof (cases s)
  case Nil
  assume "json_exp_part s = Some (ex, r)"
  with Nil show ?thesis by (simp add: json_exp_part_def)
next
  case (Cons c cs)
  assume a: "json_exp_part s = Some (ex, r)"
  have "length (dropWhile is_digit (tl cs)) \<le> length cs"
    using dropWhile_le [of is_digit "tl cs"] by (cases cs) auto
  moreover have "length (dropWhile is_digit cs) \<le> length cs"
    by (rule dropWhile_le)
  ultimately show ?thesis
    using a Cons by (auto simp: json_exp_part_def Let_def split: if_splits)
qed

lemma json_number_consumes: "json_number s = Some (v, r) \<Longrightarrow> length r < length s"
proof -
  assume a: "json_number s = Some (v, r)"
  let ?s1 = "if s \<noteq> [] \<and> hd s = CHR ''-'' then tl s else s"
  from a obtain ip s2 fp s3 ex where
    i: "json_int_part ?s1 = Some (ip, s2)" and f: "json_frac_part s2 = Some (fp, s3)"
    and e: "json_exp_part s3 = Some (ex, r)"
    by (auto simp: json_number_def Let_def split: option.splits)
  have "length ?s1 \<le> length s" by simp
  with json_int_part_consumes [OF i] json_frac_part_le [OF f] json_exp_part_le [OF e]
  show ?thesis by linarith
qed

lemma map_option_pair_Some:
  "map_option (\<lambda>(a, r). (f a, r)) m = Some (v, rest) \<Longrightarrow> \<exists>a. m = Some (a, rest) \<and> v = f a"
  by (cases m) auto

lemma less_skip_ws: "length (a # s) \<le> n \<Longrightarrow> length (skip_ws s) < n"
  using skip_ws_le [of s] by simp

lemma json_consumes:
  "json_value n s = Some (v, r) \<Longrightarrow> length r < length s"
  "json_elements n s = Some (vs, r) \<Longrightarrow> length r < length s"
  "json_members n s = Some (kvs, r) \<Longrightarrow> length r < length s"
proof (induction n s and n s and n s arbitrary: v r and vs r and kvs r
       rule: json_value_json_elements_json_members.induct)
  case (1 s)
  then show ?case by simp
next
  case (2 n s)
  from "2.prems" obtain c cs where s: "s = c # cs"
    by (cases s) auto
  consider (obj) "c = CHR ''{''" | (arr) "c \<noteq> CHR ''{''" "c = CHR ''[''"
    | (str) "c \<noteq> CHR ''{''" "c \<noteq> CHR ''[''" "c = CHR 0x22"
    | (other) "c \<noteq> CHR ''{''" "c \<noteq> CHR ''[''" "c \<noteq> CHR 0x22"
    by blast
  then show ?case
  proof cases
    case obj
    show ?thesis
    proof (cases "skip_ws cs \<noteq> [] \<and> hd (skip_ws cs) = CHR ''}''")
      case True
      with "2.prems" s obj have "r = tl (skip_ws cs)" by simp
      with True skip_ws_le [of cs] s show ?thesis
        by (cases "skip_ws cs") auto
    next
      case False
      with "2.prems" s obj obtain kvs where m: "json_members n (skip_ws cs) = Some (kvs, r)"
        by (auto dest!: map_option_pair_Some)
      from "2.IH"(1) [OF s obj False m] skip_ws_le [of cs] s show ?thesis by simp
    qed
  next
    case arr
    show ?thesis
    proof (cases "skip_ws cs \<noteq> [] \<and> hd (skip_ws cs) = CHR '']''")
      case True
      with "2.prems" s arr have "r = tl (skip_ws cs)" by simp
      with True skip_ws_le [of cs] s show ?thesis
        by (cases "skip_ws cs") auto
    next
      case False
      with "2.prems" s arr obtain vs where m: "json_elements n (skip_ws cs) = Some (vs, r)"
        by (auto dest!: map_option_pair_Some)
      from "2.IH"(2) [OF s arr False m] skip_ws_le [of cs] s show ?thesis by simp
    qed
  next
    case str
    with "2.prems" s obtain x where "json_chars cs = Some (x, r)"
      by (auto dest!: map_option_pair_Some)
    from json_chars_consumes [OF this] s show ?thesis by simp
  next
    case other
    with "2.prems" s show ?thesis
      by (auto split: if_splits dest: json_number_consumes)
  qed
next
  case (3 s)
  then show ?case by simp
next
  case (4 n s)
  from "4.prems" obtain v0 r0 where v: "json_value n s = Some (v0, r0)"
    by (auto split: option.splits)
  note l0 = "4.IH"(1) [OF v]
  from "4.prems" v obtain c cs where k: "skip_ws r0 = c # cs"
    by (auto split: list.splits)
  have l1: "length cs < length r0"
    using skip_ws_le [of r0] k by simp
  show ?case
  proof (cases "c = CHR '',''")
    case True
    with "4.prems" v k obtain xs where e: "json_elements n (skip_ws cs) = Some (xs, r)"
      by (auto dest!: cons_fst_Some)
    from "4.IH"(2) [OF v refl k True e] skip_ws_le [of cs] l0 l1 show ?thesis by simp
  next
    case False
    with "4.prems" v k have "r = cs" by (auto split: if_splits)
    with l0 l1 show ?thesis by simp
  qed
next
  case (5 s)
  then show ?case by simp
next
  case (6 n s)
  from "6.prems" obtain q s1 where s: "s = q # s1" and q: "q = CHR 0x22"
    by (cases s) (auto split: if_splits)
  from "6.prems" s q obtain k s2 where ch: "json_chars s1 = Some (k, s2)"
    by (auto split: option.splits)
  from "6.prems" s q ch obtain c s3 where w: "skip_ws s2 = c # s3" and c: "c = CHR '':''"
    by (auto split: list.splits if_splits)
  from "6.prems" s q ch w c obtain v0 s4 where v: "json_value n (skip_ws s3) = Some (v0, s4)"
    by (auto split: option.splits)
  from "6.prems" s q ch w c v obtain c' s5 where w': "skip_ws s4 = c' # s5"
    by (auto split: list.splits)
  have q': "\<not> q \<noteq> CHR 0x22" and c2: "\<not> c \<noteq> CHR '':''" using q c by simp_all
  note l4 = "6.IH"(1) [OF s q' ch refl w c2 v]
  have l: "length s5 < length s"
    using json_chars_consumes [OF ch] skip_ws_le [of s2] skip_ws_le [of s3] skip_ws_le [of s4]
      w w' l4 s by simp
  show ?case
  proof (cases "c' = CHR '',''")
    case True
    with "6.prems" s q ch w c v w' obtain xs where
      m: "json_members n (skip_ws s5) = Some (xs, r)"
      by (auto dest!: cons_fst_Some)
    from "6.IH"(2) [OF s q' ch refl w c2 v refl w' True m] skip_ws_le [of s5] l
    show ?thesis by simp
  next
    case False
    with "6.prems" s q ch w c v w' have "r = s5" by (auto split: if_splits)
    with l show ?thesis by simp
  qed
qed

lemma json_bound_enough:
  "(\<forall>s. 2 * length s < n \<longrightarrow> json_value (Suc n) s = json_value n s)
   \<and> (\<forall>s. 2 * length s + 1 < n \<longrightarrow> json_elements (Suc n) s = json_elements n s)
   \<and> (\<forall>s. 2 * length s + 1 < n \<longrightarrow> json_members (Suc n) s = json_members n s)"
proof (induction n)
  case 0
  show ?case by simp
next
  case (Suc m)
  then have IHv: "\<And>s. 2 * length s < m \<Longrightarrow> json_value (Suc m) s = json_value m s"
    and IHe: "\<And>s. 2 * length s + 1 < m \<Longrightarrow> json_elements (Suc m) s = json_elements m s"
    and IHm: "\<And>s. 2 * length s + 1 < m \<Longrightarrow> json_members (Suc m) s = json_members m s"
    by blast+
  have v: "json_value (Suc (Suc m)) s = json_value (Suc m) s" if b: "2 * length s < Suc m" for s
  proof (cases s)
    case Nil
    then show ?thesis by simp
  next
    case (Cons c cs)
    have "2 * length (skip_ws cs) + 1 < m"
      using b Cons skip_ws_le [of cs] by simp
    then have "json_members (Suc m) (skip_ws cs) = json_members m (skip_ws cs)"
      and "json_elements (Suc m) (skip_ws cs) = json_elements m (skip_ws cs)"
      by (rule IHm, rule IHe)
    then show ?thesis
      by (simp only: Cons json_value.simps(2) [of "Suc m" "c # cs"]
          json_value.simps(2) [of m "c # cs"] list.case)
  qed
  have e: "json_elements (Suc (Suc m)) s = json_elements (Suc m) s"
    if b: "2 * length s + 1 < Suc m" for s
  proof -
    have v0: "json_value (Suc m) s = json_value m s"
      by (rule IHv) (use b in simp)
    show ?thesis
    proof (cases "json_value m s")
      case None
      with v0 show ?thesis
        by (simp only: json_elements.simps(2) [of "Suc m" s] json_elements.simps(2) [of m s]
            option.case)
    next
      case (Some p)
      obtain x r where p: "p = (x, r)" by (cases p)
      from json_consumes(1) [of m s x r] Some p have l: "length r < length s" by simp
      show ?thesis
      proof (cases "skip_ws r")
        case Nil
        with v0 Some p show ?thesis
          by (simp only: json_elements.simps(2) [of "Suc m" s] json_elements.simps(2) [of m s]
              option.case prod.case list.case)
      next
        case (Cons c cs)
        have "length cs < length r"
          using skip_ws_le [of r] Cons by simp
        then have "2 * length (skip_ws cs) + 1 < m"
          using b l skip_ws_le [of cs] by simp
        then have "json_elements (Suc m) (skip_ws cs) = json_elements m (skip_ws cs)"
          by (rule IHe)
        with v0 Some p Cons show ?thesis
          by (simp only: json_elements.simps(2) [of "Suc m" s] json_elements.simps(2) [of m s]
              option.case prod.case list.case)
      qed
    qed
  qed
  have mm: "json_members (Suc (Suc m)) s = json_members (Suc m) s"
    if b: "2 * length s + 1 < Suc m" for s
  proof (cases s)
    case Nil
    then show ?thesis by simp
  next
    case s: (Cons q s1)
    note unf = json_members.simps(2) [of "Suc m" "q # s1"] json_members.simps(2) [of m "q # s1"]
      option.case prod.case list.case
    show ?thesis
    proof (cases "json_chars s1")
      case None
      with s show ?thesis by (simp only: unf)
    next
      case (Some p)
      obtain k s2 where p: "p = (k, s2)" by (cases p)
      from json_chars_consumes [of s1 k s2] Some p have l2: "length s2 < length s1" by simp
      show ?thesis
      proof (cases "skip_ws s2")
        case Nil
        with s Some p show ?thesis by (simp only: unf)
      next
        case w: (Cons c s3)
        have l3: "length s3 < length s2"
          using skip_ws_le [of s2] w by simp
        have "2 * length (skip_ws s3) < m"
          using b s l2 l3 skip_ws_le [of s3] by simp
        then have v0: "json_value (Suc m) (skip_ws s3) = json_value m (skip_ws s3)"
          by (rule IHv)
        show ?thesis
        proof (cases "json_value m (skip_ws s3)")
          case None
          with s Some p w v0 show ?thesis by (simp only: unf)
        next
          case sv: (Some pv)
          obtain x s4 where pv: "pv = (x, s4)" by (cases pv)
          from json_consumes(1) [of m "skip_ws s3" x s4] sv pv
          have l4: "length s4 < length (skip_ws s3)" by simp
          show ?thesis
          proof (cases "skip_ws s4")
            case Nil
            with s Some p w v0 sv pv show ?thesis by (simp only: unf)
          next
            case w': (Cons c' s5)
            have "length s5 < length s4"
              using skip_ws_le [of s4] w' by simp
            then have "2 * length (skip_ws s5) + 1 < m"
              using b s l2 l3 l4 skip_ws_le [of s3] skip_ws_le [of s5] by simp
            then have "json_members (Suc m) (skip_ws s5) = json_members m (skip_ws s5)"
              by (rule IHm)
            with s Some p w v0 sv pv w' show ?thesis by (simp only: unf)
          qed
        qed
      qed
    qed
  qed
  from v e mm show ?case by blast
qed

lemma json_value_bound:
  assumes "2 * length s < n"
  shows "json_value (n + k) s = json_value n s"
proof (induction k)
  case 0
  show ?case by simp
next
  case (Suc k)
  from assms have "2 * length s < n + k" by simp
  with json_bound_enough [of "n + k"] have "json_value (Suc (n + k)) s = json_value (n + k) s"
    by blast
  with Suc show ?case by simp
qed

lemma JSON_parse_ref_bound:
  "json_value (2 * length s + 2 + k) (skip_ws s) = json_value (2 * length s + 2) (skip_ws s)"
  by (rule json_value_bound) (use skip_ws_le [of s] in simp)

subsection \<open>The reference platform on examples\<close>

lemma JSON_parse_ref_examples:
  "JSON_parse_ref ''{}'' = Inr (Obj [])"
  "JSON_parse_ref '' { \"id\" : \"GS-1\", \"n\" : [1, -2.5e1, true, null] } '' =
     Inr (Obj [(''id'', Str ''GS-1''), (''n'', Arr [Num 1, Num (- 25), Bool True, Null])])"
  "JSON_parse_ref ''{\"a\": 1, \"a\": 2}'' = Inr (Obj [(''a'', Num 2)])"
  "JSON_parse_ref ''{\"a\": 1,}'' = Inl (SyntaxError ''Unexpected token in JSON'')"
  "JSON_parse_ref ''{\"a\": 01}'' = Inl (SyntaxError ''Unexpected token in JSON'')"
  "JSON_parse_ref ''{} x'' = Inl (SyntaxError ''Unexpected non-whitespace character after JSON'')"
  by code_simp+

lemma URL_new_ref_examples:
  "URL_new_ref ''https://app.example/tree-details.html?id=abc123&qr=GS-999'' =
     Inr \<lparr>pathname = ''/tree-details.html'',
          searchParams = [(''id'', ''abc123''), (''qr'', ''GS-999'')]\<rparr>"
  "URL_new_ref ''http://greensprint.app'' = Inr \<lparr>pathname = ''/'', searchParams = []\<rparr>"
  "URL_new_ref ''tree-details.html?id=5'' = Inl (TypeError ''Invalid URL'')"
  by code_simp+

subsection \<open>Reading traces\<close>

lemma lookups_append [simp]: "lookups (xs @ ys) = lookups xs @ lookups ys"
  by (induction xs rule: lookups.induct) simp_all

lemma callbacks_append [simp]: "callbacks (xs @ ys) = callbacks xs @ callbacks ys"
  by (induction xs rule: callbacks.induct) simp_all

lemma warnings_append [simp]: "warnings (xs @ ys) = warnings xs @ warnings ys"
  by (induction xs rule: warnings.induct) simp_all

lemma id_lookups_append [simp]: "id_lookups (xs @ ys) = id_lookups xs @ id_lookups ys"
  by (induction xs rule: id_lookups.induct) simp_all

lemma lookups_map [simp]: "lookups (map StoreLookup ls) = ls"
  by (induction ls) simp_all

lemma callbacks_map [simp]: "callbacks (map StoreLookup ls) = []"
  by (induction ls) simp_all

lemma warnings_map [simp]: "warnings (map StoreLookup ls) = []"
  by (induction ls) simp_all

subsection \<open>Computations that only append events\<close>

lemmas js_defs = then_do_def try_catch_def emit_def ret_def throw_def outcome_def

lemma appendsI: "(\<And>s. m s = (r, s\<lparr>trace := trace s @ evs\<rparr>)) \<Longrightarrow> appends m"
  unfolding appends_def by blast

lemma appends_run:
  assumes "appends m"
  shows "m s = (result_of m, s\<lparr>trace := trace s @ events_of m\<rparr>)"
proof -
  from assms obtain r evs where m: "\<And>s. m s = (r, s\<lparr>trace := trace s @ evs\<rparr>)"
    unfolding appends_def by blast
  have "result_of m = r" "events_of m = evs"
    by (simp_all add: result_of_def events_of_def m started_def)
  with m show ?thesis by simp
qed

lemma appends_ret [intro!, simp]: "appends (ret x)"
  by (rule appendsI [where evs = "[]"]) (simp add: ret_def)

lemma appends_throw [intro!, simp]: "appends (throw e)"
  by (rule appendsI [where evs = "[]"]) (simp add: throw_def)

lemma appends_outcome [intro!, simp]: "appends (outcome r)"
  by (rule appendsI [where evs = "[]"]) (simp add: outcome_def)

lemma appends_emit [intro!, simp]: "appends (emit ev)"
  by (rule appendsI [where evs = "[ev]"]) (simp add: emit_def)

lemma appends_then_do [intro!]:
  assumes "appends m" and "\<And>x. appends (f x)"
  shows "appends (then_do m f)"
proof (cases "result_of m")
  case (Inl e)
  show ?thesis
    by (rule appendsI [where r = "Inl e" and evs = "events_of m"])
       (simp add: then_do_def appends_run [OF assms(1)] Inl)
next
  case (Inr x)
  show ?thesis
    by (rule appendsI [where r = "result_of (f x)" and evs = "events_of m @ events_of (f x)"])
       (simp add: then_do_def appends_run [OF assms(1)] Inr appends_run [OF assms(2)])
qed

lemma appends_try_catch [intro!]:
  assumes "appends m" and "\<And>e. appends (h e)"
  shows "appends (try_catch m h)"
proof (cases "result_of m")
  case (Inl e)
  show ?thesis
    by (rule appendsI [where r = "result_of (h e)" and evs = "events_of m @ events_of (h e)"])
       (simp add: try_catch_def appends_run [OF assms(1)] Inl appends_run [OF assms(2)])
next
  case (Inr x)
  show ?thesis
    by (rule appendsI [where r = "Inr x" and evs = "events_of m"])
       (simp add: try_catch_def appends_run [OF assms(1)] Inr)
qed

lemma appends_if [intro!]: "appends a \<Longrightarrow> appends b \<Longrightarrow> appends (if c then a else b)"
  by simp

lemma appends_getByQRCode [intro!, simp]: "appends (getByQRCode E x)"
  unfolding getByQRCode_def by blast

lemma appends_getById [intro!, simp]: "appends (getById E x)"
  unfolding getById_def by blast

lemma appends_find_tree [intro!, simp]: "appends (find_tree E q)"
  unfolding find_tree_def by blast

lemma appends_recordScan [intro!, simp]: "appends (recordScan E a b c)"
  unfolding recordScan_def by (auto split: option.splits)

lemma appends_record_the_scan [intro!, simp]: "appends (record_the_scan E q t)"
  unfolding record_the_scan_def by blast

lemma events_of_then_do:
  assumes "appends m" and "\<And>x. appends (f x)"
  shows "events_of (then_do m f) =
           events_of m @ (case result_of m of Inl e \<Rightarrow> [] | Inr x \<Rightarrow> events_of (f x))"
proof -
  have "trace (snd (then_do m f started)) =
          events_of m @ (case result_of m of Inl e \<Rightarrow> [] | Inr x \<Rightarrow> events_of (f x))"
    by (simp add: then_do_def appends_run [OF assms(1)] appends_run [OF assms(2)] started_def
        split: sum.splits)
  then show ?thesis
    unfolding events_of_def [of "then_do m f"] .
qed

subsection \<open>\<open>find_tree\<close> emits lookups only\<close>

lemma only_lookups_then_do:
  assumes "only_lookups m" and "\<And>x. only_lookups (f x)"
  shows "only_lookups (then_do m f)"
proof -
  from assms have a: "appends m" "\<And>x. appends (f x)"
    by (simp_all add: only_lookups_def)
  from assms obtain ls where ls: "events_of m = map StoreLookup ls"
    by (auto simp: only_lookups_def)
  show ?thesis
  proof (cases "result_of m")
    case (Inl e)
    then show ?thesis
      using a ls by (auto simp: only_lookups_def events_of_then_do)
  next
    case (Inr x)
    from assms(2) [of x] obtain ls' where "events_of (f x) = map StoreLookup ls'"
      by (auto simp: only_lookups_def)
    then have "events_of (then_do m f) = map StoreLookup (ls @ ls')"
      using a ls Inr by (simp add: events_of_then_do)
    then show ?thesis
      using a unfolding only_lookups_def by blast
  qed
qed

lemma only_lookups_ret: "only_lookups (ret x)"
proof -
  have "events_of (ret x) = map StoreLookup []"
    by (simp add: events_of_def ret_def started_def)
  then show ?thesis
    unfolding only_lookups_def using appends_ret by blast
qed

lemma only_lookups_outcome: "only_lookups (outcome r)"
proof -
  have "events_of (outcome r) = map StoreLookup []"
    by (simp add: events_of_def outcome_def started_def)
  then show ?thesis
    unfolding only_lookups_def using appends_outcome by blast
qed

lemma only_lookups_getByQRCode: "only_lookups (getByQRCode E v)"
proof -
  have "events_of (getByQRCode E v) = map StoreLookup [ByQRCode v]"
    by (simp add: events_of_def getByQRCode_def js_defs started_def)
  then show ?thesis
    unfolding only_lookups_def using appends_getByQRCode by blast
qed

lemma only_lookups_getById: "only_lookups (getById E v)"
proof -
  have "events_of (getById E v) = map StoreLookup [ById v]"
    by (simp add: events_of_def getById_def js_defs started_def)
  then show ?thesis
    unfolding only_lookups_def using appends_getById by blast
qed

lemma only_lookups_find_tree: "only_lookups (find_tree E q)"
  unfolding find_tree_def
  by (intro only_lookups_then_do)
     (simp_all add: only_lookups_ret only_lookups_outcome only_lookups_getByQRCode
        only_lookups_getById)

lemma find_tree_silent:
  "callbacks (events_of (find_tree E q)) = []" "warnings (events_of (find_tree E q)) = []"
proof -
  from only_lookups_find_tree [of E q] obtain ls where
    "events_of (find_tree E q) = map StoreLookup ls"
    by (auto simp: only_lookups_def)
  then show "callbacks (events_of (find_tree E q)) = []"
    "warnings (events_of (find_tree E q)) = []" by simp_all
qed

subsection \<open>The lookups of \<open>find_tree\<close> are its candidates, cut at the first answer\<close>

lemma attempts_Cons_fun:
  "attempts E ((c, l) # rest) =
     (\<lambda>tree. then_do (if tree = None \<and> c then lookup_call E l else ret tree)
               (attempts E rest))"
  by (rule ext) simp

lemma attempts_Nil_fun: "attempts E [] = ret"
  by (rule ext) simp

lemma then_do_ret: "then_do m ret = m"
  by (rule ext) (simp add: then_do_def ret_def split: prod.splits sum.splits)

lemma getByQRCode_lookup_call: "getByQRCode E x = lookup_call E (ByQRCode x)"
  by (simp add: getByQRCode_def lookup_call_def)

lemma getById_lookup_call: "getById E x = lookup_call E (ById x)"
  by (simp add: getById_def lookup_call_def)

lemma find_tree_attempts:
  "find_tree E q =
     then_do (outcome (id_startsWith_GS (qr_id q))) (\<lambda>gs. attempts E (tries gs q) None)"
  unfolding find_tree_def getByQRCode_lookup_call getById_lookup_call
  by (simp add: tries_def attempts_Cons_fun attempts_Nil_fun then_do_ret)

lemma lookup_call_run:
  "lookup_call E l s = (store E l, s\<lparr>trace := trace s @ [StoreLookup l]\<rparr>)"
  by (simp add: lookup_call_def js_defs)

lemma attempts_run:
  "attempts E cs tree s =
     ((if tree = None then answer E (map snd (filter fst cs)) else Inr tree),
      s\<lparr>trace := trace s @
         (if tree = None then map StoreLookup (issued E (map snd (filter fst cs))) else [])\<rparr>)"
proof (induction cs arbitrary: tree s)
  case Nil
  show ?case by (simp add: ret_def)
next
  case (Cons a cs)
  obtain c l where a: "a = (c, l)" by (cases a)
  show ?case
  proof (cases "tree = None \<and> c")
    case False
    with Cons.IH [of tree s] a show ?thesis
      by (auto simp: then_do_def ret_def)
  next
    case True
    show ?thesis
    proof (cases "store E l")
      case (Inl e)
      with True a show ?thesis
        by (simp add: then_do_def lookup_call_run)
    next
      case (Inr t)
      from Cons.IH [of t "s\<lparr>trace := trace s @ [StoreLookup l]\<rparr>"] True a Inr
      show ?thesis
        by (cases t) (auto simp: then_do_def lookup_call_run)
    qed
  qed
qed

lemma attempts_events:
  "events_of (attempts E cs None) = map StoreLookup (issued E (map snd (filter fst cs)))"
  by (simp add: events_of_def attempts_run started_def)

lemma find_tree_lookups:
  "lookups (events_of (find_tree E q)) =
     (case id_startsWith_GS (qr_id q) of
        Inl e \<Rightarrow> []
      | Inr gs \<Rightarrow> issued E (map snd (filter fst (tries gs q))))"
proof (cases "id_startsWith_GS (qr_id q)")
  case (Inl e)
  then show ?thesis
    by (simp add: find_tree_attempts events_of_def js_defs started_def)
next
  case (Inr gs)
  have "events_of (find_tree E q) = events_of (attempts E (tries gs q) None)"
    by (simp add: find_tree_attempts events_of_def js_defs Inr)
  then show ?thesis
    by (simp add: attempts_events Inr)
qed

lemma issued_all_miss: "(\<And>l. store E l = Inr None) \<Longrightarrow> issued E ls = ls"
  by (induction ls) simp_all

lemma candidates_tries:
  "candidates q =
     (case id_startsWith_GS (qr_id q) of
        Inl e \<Rightarrow> []
      | Inr gs \<Rightarrow> map snd (filter fst (tries gs q)))"
  unfolding candidates_def events_of_def [symmetric] find_tree_lookups
  by (simp add: issued_all_miss no_rows_def split: sum.splits)

text \<open>
  Whatever the store answers, \<open>find_tree\<close> issues the candidates in order and stops
  after the first lookup that returns a row or throws.
\<close>

lemma find_tree_issues_candidates:
  "lookups (events_of (find_tree E q)) = issued E (candidates q)"
  by (simp add: find_tree_lookups candidates_tries split: sum.splits)

text \<open>
  Its result is the first answer among the candidates that is not a miss, unless the
  test of the \<open>id\<close> throws before the first lookup.
\<close>

lemma find_tree_first_answer:
  "result_of (find_tree E q) =
     (case id_startsWith_GS (qr_id q) of
        Inl e \<Rightarrow> Inl e
      | Inr gs \<Rightarrow> answer E (candidates q))"
  by (simp add: result_of_def find_tree_attempts js_defs attempts_run candidates_tries
      split: sum.splits)

subsection \<open>Recording the scan and stopping the scanner\<close>

lemma record_the_scan_result: "result_of (record_the_scan E q t) = Inr ()"
  by (simp add: result_of_def record_the_scan_def recordScan_def getByQRCode_def js_defs
      started_def split: sum.splits option.splits)

lemma record_the_scan_callbacks: "callbacks (events_of (record_the_scan E q t)) = []"
  by (simp add: events_of_def record_the_scan_def recordScan_def getByQRCode_def js_defs
      started_def split: sum.splits option.splits)

lemma record_the_scan_id_lookups:
  "id_lookups (lookups (events_of (record_the_scan E q t))) = []"
  by (simp add: events_of_def record_the_scan_def recordScan_def getByQRCode_def js_defs
      started_def split: sum.splits option.splits)

lemma record_the_scan_warnings:
  "warnings (events_of (record_the_scan E q t)) =
     (if isLoggedIn E \<and> recording_fails E then [''Could not record scan:''] else [])"
  by (simp add: events_of_def record_the_scan_def recordScan_def getByQRCode_def js_defs
      started_def recording_fails_def split: sum.splits option.splits)

lemma stopScanning_run:
  "stopScanning E s = (Inr (), snd (stopScanning E s))"
  "trace (snd (stopScanning E s)) = trace s @ stop_events E s"
  by (simp_all add: stopScanning_def stop_events_def split: option.splits)

lemma stop_events_silent:
  "callbacks (stop_events E s) = []" "warnings (stop_events E s) = []"
  "lookups (stop_events E s) = []"
  by (simp_all add: stop_events_def split: option.splits)

lemma invoke_run:
  "invoke (Some f) r s =
     ((case f r of None \<Rightarrow> Inr () | Some e \<Rightarrow> Inl e), s\<lparr>trace := trace s @ [Callback r]\<rparr>)"
  by (simp add: invoke_def js_defs)

subsection \<open>A scan that finds its tree\<close>

lemma parse_valid_not_logged: "valid (parseQRCode P d) \<Longrightarrow> \<not> snd (parseQRCode_logged P d)"
  by (auto simp: parseQRCode_def parseQRCode_logged_def invalid_info_def split: sum.splits)

lemma handleScan_try_hit:
  assumes v: "valid (parseQRCode P d)"
    and hit: "result_of (find_tree E (parseQRCode P d)) = Inr (Some t)"
  shows "handleScan_try P E d cb s =
           invoke cb (Found t (js_or (qr_code_id t) (qr_id (parseQRCode P d)))
                        ''Tree found successfully!'') (after_hit P E d t s)"
  using v hit parse_valid_not_logged [OF v]
  apply (simp add: handleScan_try_def js_defs appends_run [OF appends_find_tree]
        appends_run [OF appends_record_the_scan] record_the_scan_result after_hit_def)
  apply (subst stopScanning_run(1))
  apply simp
  done

lemma after_hit_trace:
  "\<exists>evs. trace (after_hit P E d t s) = trace s @ evs
     \<and> callbacks evs = []
     \<and> warnings evs =
         (if isLoggedIn E \<and> recording_fails E then [''Could not record scan:''] else [])
     \<and> id_lookups (lookups evs) =
         id_lookups (lookups (events_of (find_tree E (parseQRCode P d))))"
  unfolding after_hit_def stopScanning_run(2)
  apply (intro exI conjI)
     apply simp
    apply (simp_all add: find_tree_silent record_the_scan_callbacks record_the_scan_warnings
      record_the_scan_id_lookups stop_events_silent)
  done

lemma handleScan_hit_callbacks:
  assumes "valid (parseQRCode P d)"
    and "result_of (find_tree E (parseQRCode P d)) = Inr (Some t)"
  shows "callbacks (trace (snd (handleScan P E d (Some f) s))) =
           callbacks (trace s) @
           Found t (js_or (qr_code_id t) (qr_id (parseQRCode P d))) ''Tree found successfully!'' #
           (case f (Found t (js_or (qr_code_id t) (qr_id (parseQRCode P d)))
                      ''Tree found successfully!'') of
              None \<Rightarrow> [] | Some e \<Rightarrow> [Failed (message e)])"
proof -
  from after_hit_trace [of P E d t s] obtain evs where
    evs: "trace (after_hit P E d t s) = trace s @ evs" "callbacks evs = []"
    by blast
  show ?thesis
    by (simp add: handleScan_def handleScan_try_hit [OF assms] invoke_run try_catch_def
        then_do_def emit_def evs split: option.splits)
qed

lemma handleScan_hit_id_lookups:
  assumes "valid (parseQRCode P d)"
    and "result_of (find_tree E (parseQRCode P d)) = Inr (Some t)"
  shows "id_lookups (lookups (trace (snd (handleScan P E d (Some f) s)))) =
           id_lookups (lookups (trace s)) @
           id_lookups (lookups (events_of (find_tree E (parseQRCode P d))))"
proof -
  from after_hit_trace [of P E d t s] obtain evs where
    evs: "trace (after_hit P E d t s) = trace s @ evs"
      "id_lookups (lookups evs) = id_lookups (lookups (events_of (find_tree E (parseQRCode P d))))"
    by blast
  show ?thesis
    by (simp add: handleScan_def handleScan_try_hit [OF assms] invoke_run try_catch_def
        then_do_def emit_def evs split: option.splits)
qed

subsection \<open>Classification\<close>

lemma startsWith_nonempty: "startsWith d ''GS-'' \<Longrightarrow> d \<noteq> []"
  by (auto simp: startsWith_def)

lemma matches_uuid_nonempty: "matches_uuid d \<Longrightarrow> d \<noteq> []"
  by (auto simp: matches_uuid_def eval_nat_numeral)

lemma url_rule_id:
  assumes "url_rule P d = Some r"
  shows "valid r \<and> qr_type r = Some url
     \<and> (\<exists>u. URL_new P d = Inr u
          \<and> qr_id r =
              (if truthy (searchParams_get u ''qr'') then searchParams_get u ''qr''
               else if truthy (searchParams_get u ''id'') then searchParams_get u ''id''
               else Str (last (split (CHR ''/'') (pathname u)))))
     \<and> (\<exists>s. qr_id r = Str s)"
proof -
  have n: "split (CHR ''/'') x \<noteq> []" for x
    by (induction x) (auto split: list.splits)
  have g: "(\<exists>s. searchParams_get u k = Str s) \<or> searchParams_get u k = Null" for u k
    by (auto simp: searchParams_get_def split: option.splits)
  have i: "js_or (searchParams_get u ''qr'') (js_or (searchParams_get u ''id'')
            (pop (split (CHR ''/'') (pathname u)))) =
           (if truthy (searchParams_get u ''qr'') then searchParams_get u ''qr''
               else if truthy (searchParams_get u ''id'') then searchParams_get u ''id''
               else Str (last (split (CHR ''/'') (pathname u))))" for u
    by (simp add: js_or_def pop_def n)
  have s: "\<exists>s. (if truthy (searchParams_get u ''qr'') then searchParams_get u ''qr''
               else if truthy (searchParams_get u ''id'') then searchParams_get u ''id''
               else Str (last (split (CHR ''/'') (pathname u)))) = Str s" for u
    using g [of u "''qr''"] g [of u "''id''"] by auto
  from assms obtain u where u: "URL_new P d = Inr u"
    and r: "r = \<lparr>valid = True,
                 qr_id = js_or (searchParams_get u ''qr'') (js_or (searchParams_get u ''id'')
                           (pop (split (CHR ''/'') (pathname u)))),
                 qr_type = Some url,
                 data = Obj [(''tree_id'', searchParams_get u ''id''),
                             (''qr_code_id'', searchParams_get u ''qr'')],
                 error = None\<rparr>"
    by (auto simp: url_rule_def Let_def split: if_splits sum.splits)
  from u s [of u] show ?thesis
    unfolding r i by simp
qed

lemma get_prop_opt_prop: "get_prop v k = Inr x \<Longrightarrow> opt_prop v k = x"
  by (cases v) auto

text \<open>
  Claim C1, as stated, fails, in the JSON branch and in the URL branch. The text \<open>{}\<close>
  decodes to an object without \<open>id\<close> and \<open>qr_code_id\<close>, and the result is valid
  with an \<open>id\<close> that is \<open>undefined\<close>. The URL \<open>https://app.example/\<close> has no query
  parameter and a path that ends in a slash, and the result is valid with the empty
  string as its \<open>id\<close>. Query parameters that are present but empty are passed over
  like absent ones.
\<close>

theorem parseQRCode_empty_object_counterexample:
  "valid (parseQRCode browser ''{}'') \<and> qr_id (parseQRCode browser ''{}'') = Undefined
   \<and> valid (parseQRCode browser ''https://app.example/'')
   \<and> qr_id (parseQRCode browser ''https://app.example/'') = Str []
   \<and> valid (parseQRCode browser ''https://app.example/tree-details.html?id=&qr='')
   \<and> qr_id (parseQRCode browser ''https://app.example/tree-details.html?id=&qr='')
       = Str ''tree-details.html''"
  by code_simp

text \<open>
  Claim C1, amended. A result is invalid exactly when it has no type (it is
  unrecognized). A native code and a UUID have the scanned text, which is not empty, as
  their \<open>id\<close>. The \<open>id\<close> of a URL is a string, possibly empty: the \<open>qr\<close> parameter
  of the parsed URL if that is present and not empty, else the \<open>id\<close> parameter if that
  is present and not empty, else the last segment of the path. The \<open>id\<close> of a decoded
  JSON payload is the payload's \<open>id\<close> if that is truthy and its \<open>qr_code_id\<close>
  otherwise, whatever value that is; it is \<open>undefined\<close> when the payload has neither.
\<close>

theorem parseQRCode_valid_iff_recognized:
  "(\<not> valid (parseQRCode P d)) = (qr_type (parseQRCode P d) = None)
   \<and> (qr_type (parseQRCode P d) = Some gs_format \<or> qr_type (parseQRCode P d) = Some uuid
        \<longrightarrow> qr_id (parseQRCode P d) = Str d \<and> d \<noteq> [])
   \<and> (qr_type (parseQRCode P d) = Some url \<longrightarrow>
        (\<exists>u. URL_new P d = Inr u
           \<and> qr_id (parseQRCode P d) =
               (if truthy (searchParams_get u ''qr'') then searchParams_get u ''qr''
                else if truthy (searchParams_get u ''id'') then searchParams_get u ''id''
                else Str (last (split (CHR ''/'') (pathname u)))))
        \<and> (\<exists>s. qr_id (parseQRCode P d) = Str s))
   \<and> (qr_type (parseQRCode P d) = Some json \<longrightarrow>
        qr_id (parseQRCode P d) =
          js_or (opt_prop (data (parseQRCode P d)) ''id'')
                (opt_prop (data (parseQRCode P d)) ''qr_code_id''))"
proof (cases "startsWith d ''{''")
  case True
  then show ?thesis
    by (auto simp: parseQRCode_def parseQRCode_logged_def parseQRCode_try_def json_rule_def
        invalid_info_def js_or_def dest: get_prop_opt_prop split: sum.splits if_splits)
next
  case False
  show ?thesis
  proof (cases "url_rule P d")
    case None
    with False show ?thesis
      by (auto simp: parseQRCode_def parseQRCode_logged_def parseQRCode_try_def later_rules_def
          invalid_info_def startsWith_nonempty matches_uuid_nonempty)
  next
    case (Some r)
    from url_rule_id [OF Some] False Some show ?thesis
      by (auto simp: parseQRCode_def parseQRCode_logged_def parseQRCode_try_def later_rules_def
          invalid_info_def startsWith_nonempty)
  qed
qed

theorem parseQRCode_valid_iff_recognized_witness:
  "valid (parseQRCode browser ''GS-1'') \<and> qr_type (parseQRCode browser ''GS-1'') = Some gs_format
   \<and> qr_id (parseQRCode browser ''GS-1'') = Str ''GS-1''
   \<and> qr_type (parseQRCode browser ''{}'') = Some json
   \<and> \<not> truthy (qr_id (parseQRCode browser ''{}''))
   \<and> qr_type (parseQRCode browser scanned_url) = Some url
   \<and> URL_new browser scanned_url =
       Inr \<lparr>pathname = ''/tree-details.html'',
            searchParams = [(''id'', ''abc123''), (''qr'', ''GS-999'')]\<rparr>
   \<and> qr_id (parseQRCode browser scanned_url) = Str ''GS-999''
   \<and> qr_type (parseQRCode browser ''http://greensprint.app/trees/?id=7'') = Some url
   \<and> URL_new browser ''http://greensprint.app/trees/?id=7'' =
       Inr \<lparr>pathname = ''/trees/'', searchParams = [(''id'', ''7'')]\<rparr>
   \<and> qr_id (parseQRCode browser ''http://greensprint.app/trees/?id=7'') = Str ''7''
   \<and> qr_type (parseQRCode browser ''http://greensprint.app/trees/'') = Some url
   \<and> URL_new browser ''http://greensprint.app/trees/'' =
       Inr \<lparr>pathname = ''/trees/'', searchParams = []\<rparr>
   \<and> qr_id (parseQRCode browser ''http://greensprint.app/trees/'') = Str []"
proof -
  have a: "qr_type (parseQRCode browser ''GS-1'') = Some gs_format"
    by code_simp
  have b: "qr_type (parseQRCode browser ''{}'') = Some json"
    "data (parseQRCode browser ''{}'') = Obj []"
    by code_simp+
  have c: "qr_type (parseQRCode browser scanned_url) = Some url"
    "URL_new browser scanned_url =
       Inr \<lparr>pathname = ''/tree-details.html'',
            searchParams = [(''id'', ''abc123''), (''qr'', ''GS-999'')]\<rparr>"
    by code_simp+
  have e: "qr_type (parseQRCode browser ''http://greensprint.app/trees/?id=7'') = Some url"
    "URL_new browser ''http://greensprint.app/trees/?id=7'' =
       Inr \<lparr>pathname = ''/trees/'', searchParams = [(''id'', ''7'')]\<rparr>"
    by code_simp+
  have f: "qr_type (parseQRCode browser ''http://greensprint.app/trees/'') = Some url"
    "URL_new browser ''http://greensprint.app/trees/'' =
       Inr \<lparr>pathname = ''/trees/'', searchParams = []\<rparr>"
    by code_simp+
  from parseQRCode_valid_iff_recognized [of browser "''GS-1''"] parseQRCode_valid_iff_recognized [of browser "''{}''"] parseQRCode_valid_iff_recognized [of browser scanned_url]
    parseQRCode_valid_iff_recognized [of browser "''http://greensprint.app/trees/?id=7''"]
    parseQRCode_valid_iff_recognized [of browser "''http://greensprint.app/trees/''"] a b c e f
  show ?thesis by (simp add: js_or_def searchParams_get_def)
qed

text \<open>
  Claim C2, as stated, fails: on the text \<open>{\<close> the decoder throws, and \<open>parseQRCode\<close>
  returns from its \<open>catch\<close> block; the result carries the decoder's message, not the
  message of the unknown-format branch that the later rules end in.
\<close>

theorem parseQRCode_malformed_json_counterexample:
  "startsWith ''{'' ''{''
   \<and> JSON_parse browser ''{'' = Inl (SyntaxError ''Unexpected token in JSON'')
   \<and> parseQRCode_logged browser ''{'' = (invalid_info ''Unexpected token in JSON'', True)
   \<and> later_rules browser ''{'' = invalid_info ''Unknown QR code format. Expected Green Sprint QR.''
   \<and> parseQRCode browser ''{'' \<noteq> later_rules browser ''{''"
  by code_simp

text \<open>
  Claim C2, amended. For every text that starts with an opening brace and that the
  decoder rejects, \<open>parseQRCode\<close> returns at once from its \<open>catch\<close> block: the result is
  invalid and its error is the decoder's message, whatever the later rules would have
  made of the text.
\<close>

theorem parseQRCode_json_failure_is_invalid_at_once:
  assumes "startsWith d ''{''" and "JSON_parse P d = Inl e"
  shows "parseQRCode_logged P d = (invalid_info (message e), True)
         \<and> parseQRCode P d = invalid_info (message e)
         \<and> \<not> valid (parseQRCode P d) \<and> error (parseQRCode P d) = Some (message e)"
  using assms
  by (simp add: parseQRCode_def parseQRCode_logged_def parseQRCode_try_def json_rule_def
      invalid_info_def)

theorem parseQRCode_json_failure_is_invalid_at_once_witness:
  "startsWith ''{id:'' ''{''
   \<and> JSON_parse browser ''{id:'' = Inl (SyntaxError ''Unexpected token in JSON'')
   \<and> parseQRCode_logged browser ''{id:'' = (invalid_info ''Unexpected token in JSON'', True)
   \<and> error (parseQRCode browser ''{id:'') = Some ''Unexpected token in JSON''"
proof -
  have a: "startsWith ''{id:'' ''{''"
    by code_simp
  have b: "JSON_parse browser ''{id:'' = Inl (SyntaxError ''Unexpected token in JSON'')"
    by code_simp
  from parseQRCode_json_failure_is_invalid_at_once [OF a b] a b show ?thesis
    by (simp add: invalid_info_def)
qed

subsection \<open>Unrecognized text\<close>

lemma not_a_real_code_tests:
  "\<not> startsWith ''not-a-real-code'' ''{''" "\<not> startsWith ''not-a-real-code'' ''GS-''"
  "\<not> includes_str ''not-a-real-code'' ''http''"
  "\<not> includes_str ''not-a-real-code'' ''tree-details''"
  "\<not> matches_uuid ''not-a-real-code''"
  by code_simp+

lemma parse_not_a_real_code: "\<not> valid (parseQRCode P ''not-a-real-code'')"
  by (simp add: parseQRCode_def parseQRCode_logged_def parseQRCode_try_def
      later_rules_def url_rule_def invalid_info_def not_a_real_code_tests)

text \<open>
  Claim C7. The text \<open>not-a-real-code\<close> is classified as invalid on every platform.
  For every text that is classified as invalid, \<open>handleScan\<close> writes its console lines
  and calls the callback once, with \<open>success\<close> false and the message of the invalid
  format; it calls the store not at all.
\<close>

theorem handleScan_invalid_no_store_call:
  "\<not> valid (parseQRCode P ''not-a-real-code'')
   \<and> (\<not> valid (parseQRCode P d) \<longrightarrow>
        handleScan P E d (Some f) s =
          ((case f (Failed
                ''Invalid QR code format. This doesn't appear to be a Green Sprint QR code.'') of
              None \<Rightarrow> Inr () | Some e \<Rightarrow> Inl e),
           s\<lparr>trace := trace s @
              [ConsoleLog ''Processing scanned QR:'', ConsoleLog ''Parsing QR data:''] @
              (if snd (parseQRCode_logged P d) then [ConsoleError ''Parse error:''] else []) @
              [ConsoleLog ''Parsed QR info:'', ConsoleError ''Scan handling error:'',
               Callback (Failed
                 ''Invalid QR code format. This doesn't appear to be a Green Sprint QR code.'')]\<rparr>)
        \<and> lookups (trace (snd (handleScan P E d (Some f) s))) = lookups (trace s)
        \<and> callbacks (trace (snd (handleScan P E d (Some f) s))) = callbacks (trace s) @
             [Failed ''Invalid QR code format. This doesn't appear to be a Green Sprint QR code.'']
        \<and> \<not> success (Failed
             ''Invalid QR code format. This doesn't appear to be a Green Sprint QR code.''))"
  using parse_not_a_real_code [of P]
  by (simp add: handleScan_def handleScan_try_def invoke_run js_defs)

theorem handleScan_invalid_no_store_call_witness:
  "\<not> valid (parseQRCode browser ''not-a-real-code'')
   \<and> handleScan browser no_rows ''not-a-real-code'' (Some (\<lambda>r. None)) started =
       (Inr (),
        started\<lparr>trace :=
          [ConsoleLog ''Processing scanned QR:'', ConsoleLog ''Parsing QR data:'',
           ConsoleLog ''Parsed QR info:'', ConsoleError ''Scan handling error:'',
           Callback (Failed
             ''Invalid QR code format. This doesn't appear to be a Green Sprint QR code.'')]\<rparr>)
   \<and> lookups (trace (snd (handleScan browser no_rows ''not-a-real-code'' (Some (\<lambda>r. None))
        started))) = []"
proof -
  have l: "\<not> snd (parseQRCode_logged browser ''not-a-real-code'')"
    by code_simp
  from handleScan_invalid_no_store_call
         [of browser "''not-a-real-code''" no_rows "\<lambda>r. None" started] l
  show ?thesis
    by (simp add: started_def)
qed

subsection \<open>The scanned URL\<close>

lemma parse_scanned_url:
  "parseQRCode browser scanned_url =
     \<lparr>valid = True, qr_id = Str ''GS-999'', qr_type = Some url,
      data = Obj [(''tree_id'', Str ''abc123''), (''qr_code_id'', Str ''GS-999'')],
      error = None\<rparr>"
  by code_simp

lemma scanned_url_candidates:
  "candidates (parseQRCode browser scanned_url) =
     [ByQRCode (Str ''GS-999''), ById (Str ''abc123''), ByQRCode (Str ''GS-999''),
      ByQRCode (Str ''GS-999''), ById (Str ''GS-999'')]"
  by (simp add: candidates_tries parse_scanned_url id_startsWith_GS_def startsWith_def
      tries_def)

lemma scanned_url_first_hit:
  assumes "store E (ByQRCode (Str ''GS-999'')) = Inr (Some t)"
  shows "result_of (find_tree E (parseQRCode browser scanned_url)) = Inr (Some t)"
    and "lookups (events_of (find_tree E (parseQRCode browser scanned_url))) =
           [ByQRCode (Str ''GS-999'')]"
proof -
  show "result_of (find_tree E (parseQRCode browser scanned_url)) = Inr (Some t)"
    using assms
    by (simp add: parse_scanned_url result_of_def find_tree_def js_defs getByQRCode_def
        started_def id_startsWith_GS_def startsWith_def)
  show "lookups (events_of (find_tree E (parseQRCode browser scanned_url))) =
           [ByQRCode (Str ''GS-999'')]"
    using assms by (simp add: find_tree_issues_candidates scanned_url_candidates)
qed

text \<open>
  Claim C3, as stated, fails in its list of candidates. For the scanned text
  \<open>https://app.example/tree-details.html?id=abc123&qr=GS-999\<close> and a store without
  rows, \<open>find_tree\<close> and the whole of \<open>handleScan\<close> issue five lookups, not two: the
  first two are the ones of the claim, and the code \<open>GS-999\<close> is then looked up twice
  more by code and once by record id.
\<close>

theorem scanned_url_five_lookups_counterexample:
  "lookups (events_of (find_tree no_rows (parseQRCode browser scanned_url))) =
     [ByQRCode (Str ''GS-999''), ById (Str ''abc123''), ByQRCode (Str ''GS-999''),
      ByQRCode (Str ''GS-999''), ById (Str ''GS-999'')]
   \<and> lookups (trace (snd (handleScan browser no_rows scanned_url None started))) =
     [ByQRCode (Str ''GS-999''), ById (Str ''abc123''), ByQRCode (Str ''GS-999''),
      ByQRCode (Str ''GS-999''), ById (Str ''GS-999'')]
   \<and> candidates (parseQRCode browser scanned_url) \<noteq>
       [ByQRCode (Str ''GS-999''), ById (Str ''abc123'')]"
  by code_simp

text \<open>
  Claim C3, amended. For the scanned text the candidates are, in order, \<open>GS-999\<close> by
  code, \<open>abc123\<close> by record id, \<open>GS-999\<close> by code twice more, and \<open>GS-999\<close> by
  record id. Whatever the store answers, \<open>find_tree\<close> issues them in this order up to
  the first lookup that does not miss, and returns that lookup's answer. When the first
  lookup returns a row, \<open>find_tree\<close> returns that row after this one lookup, and the
  whole of \<open>handleScan\<close> looks nothing up by record id and hands the row to the
  callback. When the first lookup misses and the second returns a row, that row is
  returned after these two lookups. When all miss, all five are issued.
\<close>

theorem scanned_url_order_and_short_circuit:
  "candidates (parseQRCode browser scanned_url) =
     [ByQRCode (Str ''GS-999''), ById (Str ''abc123''), ByQRCode (Str ''GS-999''),
      ByQRCode (Str ''GS-999''), ById (Str ''GS-999'')]
   \<and> lookups (events_of (find_tree E (parseQRCode browser scanned_url))) =
       issued E [ByQRCode (Str ''GS-999''), ById (Str ''abc123''), ByQRCode (Str ''GS-999''),
                 ByQRCode (Str ''GS-999''), ById (Str ''GS-999'')]
   \<and> result_of (find_tree E (parseQRCode browser scanned_url)) =
       answer E [ByQRCode (Str ''GS-999''), ById (Str ''abc123''), ByQRCode (Str ''GS-999''),
                 ByQRCode (Str ''GS-999''), ById (Str ''GS-999'')]
   \<and> (store E (ByQRCode (Str ''GS-999'')) = Inr None
        \<and> store E (ById (Str ''abc123'')) = Inr None
        \<and> store E (ById (Str ''GS-999'')) = Inr None \<longrightarrow>
        lookups (events_of (find_tree E (parseQRCode browser scanned_url))) =
          [ByQRCode (Str ''GS-999''), ById (Str ''abc123''), ByQRCode (Str ''GS-999''),
           ByQRCode (Str ''GS-999''), ById (Str ''GS-999'')]
        \<and> result_of (find_tree E (parseQRCode browser scanned_url)) = Inr None)
   \<and> (store E (ByQRCode (Str ''GS-999'')) = Inr None
        \<and> store E (ById (Str ''abc123'')) = Inr (Some t) \<longrightarrow>
        lookups (events_of (find_tree E (parseQRCode browser scanned_url))) =
          [ByQRCode (Str ''GS-999''), ById (Str ''abc123'')]
        \<and> result_of (find_tree E (parseQRCode browser scanned_url)) = Inr (Some t))
   \<and> (store E (ByQRCode (Str ''GS-999'')) = Inr (Some t) \<longrightarrow>
        result_of (find_tree E (parseQRCode browser scanned_url)) = Inr (Some t)
        \<and> lookups (events_of (find_tree E (parseQRCode browser scanned_url))) =
            [ByQRCode (Str ''GS-999'')]
        \<and> id_lookups (lookups (trace (snd (handleScan browser E scanned_url (Some f) s)))) =
            id_lookups (lookups (trace s))
        \<and> callbacks (trace (snd (handleScan browser E scanned_url (Some f) s))) =
            callbacks (trace s) @
            Found t (js_or (qr_code_id t) (Str ''GS-999'')) ''Tree found successfully!'' #
            (case f (Found t (js_or (qr_code_id t) (Str ''GS-999''))
                       ''Tree found successfully!'') of
               None \<Rightarrow> [] | Some e \<Rightarrow> [Failed (message e)]))"
proof -
  have v: "valid (parseQRCode browser scanned_url)"
    and i: "qr_id (parseQRCode browser scanned_url) = Str ''GS-999''"
    by (simp_all add: parse_scanned_url)
  have g: "id_startsWith_GS (qr_id (parseQRCode browser scanned_url)) = Inr True"
    by (simp add: i id_startsWith_GS_def startsWith_def)
  note c = scanned_url_candidates
  have l: "lookups (events_of (find_tree E (parseQRCode browser scanned_url))) =
       issued E [ByQRCode (Str ''GS-999''), ById (Str ''abc123''), ByQRCode (Str ''GS-999''),
                 ByQRCode (Str ''GS-999''), ById (Str ''GS-999'')]"
    by (simp only: find_tree_issues_candidates c)
  have r: "result_of (find_tree E (parseQRCode browser scanned_url)) =
       answer E [ByQRCode (Str ''GS-999''), ById (Str ''abc123''), ByQRCode (Str ''GS-999''),
                 ByQRCode (Str ''GS-999''), ById (Str ''GS-999'')]"
    by (simp add: find_tree_first_answer g c)
  have m: "lookups (events_of (find_tree E (parseQRCode browser scanned_url))) =
          [ByQRCode (Str ''GS-999''), ById (Str ''abc123''), ByQRCode (Str ''GS-999''),
           ByQRCode (Str ''GS-999''), ById (Str ''GS-999'')]
        \<and> result_of (find_tree E (parseQRCode browser scanned_url)) = Inr None"
    if "store E (ByQRCode (Str ''GS-999'')) = Inr None"
       "store E (ById (Str ''abc123'')) = Inr None"
       "store E (ById (Str ''GS-999'')) = Inr None"
    unfolding l r using that by simp
  have h2: "lookups (events_of (find_tree E (parseQRCode browser scanned_url))) =
          [ByQRCode (Str ''GS-999''), ById (Str ''abc123'')]
        \<and> result_of (find_tree E (parseQRCode browser scanned_url)) = Inr (Some t)"
    if "store E (ByQRCode (Str ''GS-999'')) = Inr None"
       "store E (ById (Str ''abc123'')) = Inr (Some t)"
    unfolding l r using that by simp
  have h1: "result_of (find_tree E (parseQRCode browser scanned_url)) = Inr (Some t)
        \<and> lookups (events_of (find_tree E (parseQRCode browser scanned_url))) =
            [ByQRCode (Str ''GS-999'')]
        \<and> id_lookups (lookups (trace (snd (handleScan browser E scanned_url (Some f) s)))) =
            id_lookups (lookups (trace s))
        \<and> callbacks (trace (snd (handleScan browser E scanned_url (Some f) s))) =
            callbacks (trace s) @
            Found t (js_or (qr_code_id t) (Str ''GS-999'')) ''Tree found successfully!'' #
            (case f (Found t (js_or (qr_code_id t) (Str ''GS-999''))
                       ''Tree found successfully!'') of
               None \<Rightarrow> [] | Some e \<Rightarrow> [Failed (message e)])"
    if hit: "store E (ByQRCode (Str ''GS-999'')) = Inr (Some t)"
  proof -
    have r1: "result_of (find_tree E (parseQRCode browser scanned_url)) = Inr (Some t)"
      unfolding r using hit by simp
    have r2: "lookups (events_of (find_tree E (parseQRCode browser scanned_url))) =
            [ByQRCode (Str ''GS-999'')]"
      unfolding l using hit by simp
    from handleScan_hit_id_lookups [OF v r1, of f s] r2
    have "id_lookups (lookups (trace (snd (handleScan browser E scanned_url (Some f) s)))) =
            id_lookups (lookups (trace s))"
      by simp
    moreover from handleScan_hit_callbacks [OF v r1, of f s] i
    have "callbacks (trace (snd (handleScan browser E scanned_url (Some f) s))) =
            callbacks (trace s) @
            Found t (js_or (qr_code_id t) (Str ''GS-999'')) ''Tree found successfully!'' #
            (case f (Found t (js_or (qr_code_id t) (Str ''GS-999''))
                       ''Tree found successfully!'') of
               None \<Rightarrow> [] | Some e \<Rightarrow> [Failed (message e)])"
      by simp
    ultimately show ?thesis using r1 r2 by simp
  qed
  from c l r m h2 h1 show ?thesis by blast
qed

theorem scanned_url_order_and_short_circuit_witness:
  "store found_by_code (ByQRCode (Str ''GS-999'')) =
     Inr (Some \<lparr>tree_id = Str ''abc123'', qr_code_id = Str ''GS-999''\<rparr>)
   \<and> result_of (find_tree found_by_code (parseQRCode browser scanned_url)) =
       Inr (Some \<lparr>tree_id = Str ''abc123'', qr_code_id = Str ''GS-999''\<rparr>)
   \<and> lookups (events_of (find_tree found_by_code (parseQRCode browser scanned_url))) =
       [ByQRCode (Str ''GS-999'')]
   \<and> id_lookups (lookups (trace (snd (handleScan browser found_by_code scanned_url
        (Some (\<lambda>r. None)) started)))) = []
   \<and> callbacks (trace (snd (handleScan browser found_by_code scanned_url
        (Some (\<lambda>r. None)) started))) =
       [Found \<lparr>tree_id = Str ''abc123'', qr_code_id = Str ''GS-999''\<rparr> (Str ''GS-999'')
          ''Tree found successfully!'']
   \<and> store found_by_id (ByQRCode (Str ''GS-999'')) = Inr None
   \<and> store found_by_id (ById (Str ''abc123'')) =
       Inr (Some \<lparr>tree_id = Str ''abc123'', qr_code_id = Null\<rparr>)
   \<and> lookups (events_of (find_tree found_by_id (parseQRCode browser scanned_url))) =
       [ByQRCode (Str ''GS-999''), ById (Str ''abc123'')]
   \<and> result_of (find_tree found_by_id (parseQRCode browser scanned_url)) =
       Inr (Some \<lparr>tree_id = Str ''abc123'', qr_code_id = Null\<rparr>)
   \<and> store no_rows (ByQRCode (Str ''GS-999'')) = Inr None
   \<and> store no_rows (ById (Str ''abc123'')) = Inr None
   \<and> store no_rows (ById (Str ''GS-999'')) = Inr None
   \<and> lookups (events_of (find_tree no_rows (parseQRCode browser scanned_url))) =
       [ByQRCode (Str ''GS-999''), ById (Str ''abc123''), ByQRCode (Str ''GS-999''),
        ByQRCode (Str ''GS-999''), ById (Str ''GS-999'')]
   \<and> result_of (find_tree no_rows (parseQRCode browser scanned_url)) = Inr None"
proof -
  have a: "store found_by_code (ByQRCode (Str ''GS-999'')) =
     Inr (Some \<lparr>tree_id = Str ''abc123'', qr_code_id = Str ''GS-999''\<rparr>)"
    by (simp add: found_by_code_def)
  have b: "store no_rows (ByQRCode (Str ''GS-999'')) = Inr None"
    "store no_rows (ById (Str ''abc123'')) = Inr None"
    "store no_rows (ById (Str ''GS-999'')) = Inr None"
    by (simp_all add: no_rows_def)
  have c: "store found_by_id (ByQRCode (Str ''GS-999'')) = Inr None"
    "store found_by_id (ById (Str ''abc123'')) =
       Inr (Some \<lparr>tree_id = Str ''abc123'', qr_code_id = Null\<rparr>)"
    by (simp_all add: found_by_id_def)
  from scanned_url_order_and_short_circuit [of found_by_code "\<lparr>tree_id = Str ''abc123'', qr_code_id = Str ''GS-999''\<rparr>"
             "\<lambda>r. None" started]
       scanned_url_order_and_short_circuit [of no_rows "\<lparr>tree_id = Str ''abc123'', qr_code_id = Str ''GS-999''\<rparr>"
             "\<lambda>r. None" started]
       scanned_url_order_and_short_circuit [of found_by_id "\<lparr>tree_id = Str ''abc123'', qr_code_id = Null\<rparr>"
             "\<lambda>r. None" started] a b c
  show ?thesis
    by (simp add: started_def js_or_def)
qed

subsection \<open>The candidates of a classified input\<close>

text \<open>
  Claim C5, as stated, fails: for the native code \<open>GS-1\<close> the lookup by code is tried
  twice in a row.
\<close>

theorem candidates_native_code_counterexample:
  "candidates (parseQRCode browser ''GS-1'') =
     [ByQRCode (Str ''GS-1''), ByQRCode (Str ''GS-1''), ById (Str ''GS-1'')]
   \<and> candidates (parseQRCode browser ''GS-1'') ! 0 = candidates (parseQRCode browser ''GS-1'') ! 1"
  by code_simp

text \<open>
  Claim C5, amended. For a classified input whose \<open>id\<close> is falsy or a string, the
  candidates are, in this order: the lookup by code for an \<open>id\<close> that starts with
  \<open>GS-\<close>; the lookup by record id for a truthy \<open>data.tree_id\<close>; the lookup by code for
  a truthy \<open>data.qr_code_id\<close>; the lookup by record id for the \<open>id\<close> of a UUID; and
  then always the lookup by code and the lookup by record id for the \<open>id\<close>. The two
  fallback lookups end the list whether or not they occur earlier in it, and equal
  neighbours stay.
\<close>

theorem candidates_end_with_fallbacks:
  assumes "id_startsWith_GS (qr_id q) = Inr gs"
  shows "candidates q =
    (if gs then [ByQRCode (qr_id q)] else []) @
    (if truthy (opt_prop (data q) ''tree_id'')
     then [ById (opt_prop (data q) ''tree_id'')] else []) @
    (if truthy (opt_prop (data q) ''qr_code_id'')
     then [ByQRCode (opt_prop (data q) ''qr_code_id'')] else []) @
    (if qr_type q = Some uuid then [ById (qr_id q)] else []) @
    [ByQRCode (qr_id q), ById (qr_id q)]"
  by (simp add: candidates_tries assms tries_def)

theorem candidates_end_with_fallbacks_witness:
  "id_startsWith_GS (qr_id (parseQRCode browser ''123e4567-e89b-12d3-a456-426614174000''))
     = Inr False
   \<and> candidates (parseQRCode browser ''123e4567-e89b-12d3-a456-426614174000'') =
     [ById (Str ''123e4567-e89b-12d3-a456-426614174000''),
      ById (Str ''123e4567-e89b-12d3-a456-426614174000''),
      ByQRCode (Str ''123e4567-e89b-12d3-a456-426614174000''),
      ById (Str ''123e4567-e89b-12d3-a456-426614174000'')]"
proof -
  have p: "parseQRCode browser ''123e4567-e89b-12d3-a456-426614174000'' =
     \<lparr>valid = True, qr_id = Str ''123e4567-e89b-12d3-a456-426614174000'',
      qr_type = Some uuid,
      data = Obj [(''tree_id'', Str ''123e4567-e89b-12d3-a456-426614174000'')],
      error = None\<rparr>"
    by code_simp
  have g: "id_startsWith_GS (qr_id (parseQRCode browser ''123e4567-e89b-12d3-a456-426614174000''))
     = Inr False"
    by code_simp
  from candidates_end_with_fallbacks [OF g] g show ?thesis
    by (simp add: p)
qed

text \<open>
  An \<open>id\<close> that is truthy and not a string has no candidates: the test of the first
  attempt throws before any lookup.
\<close>

lemma numeric_id_has_no_candidates:
  "qr_id (parseQRCode browser ''{\"id\": 5}'') = Num 5"
  "id_startsWith_GS (Num 5) = Inl (TypeError ''qrInfo.id.startsWith is not a function'')"
  "candidates (parseQRCode browser ''{\"id\": 5}'') = []"
  by code_simp+

subsection \<open>Recording the scan is best effort\<close>

text \<open>
  Claim C6. When the scanned text is valid and \<open>find_tree\<close> returns a row, then
  whatever the location request, the read of the user and \<open>recordScan\<close> do, the callback
  is called with the success result that carries this row; a second call, with a
  failure, follows only if the callback itself throws. If the callback returns,
  \<open>handleScan\<close> completes without an error. If a user is logged in and the recording
  fails, the warning \<open>Could not record scan:\<close> is written to the console.
\<close>

theorem handleScan_hit_survives_recording:
  assumes "valid (parseQRCode P d)"
    and "result_of (find_tree E (parseQRCode P d)) = Inr (Some t)"
  shows "callbacks (trace (snd (handleScan P E d (Some f) s))) =
           callbacks (trace s) @
           Found t (js_or (qr_code_id t) (qr_id (parseQRCode P d))) ''Tree found successfully!'' #
           (case f (Found t (js_or (qr_code_id t) (qr_id (parseQRCode P d)))
                      ''Tree found successfully!'') of
              None \<Rightarrow> [] | Some e \<Rightarrow> [Failed (message e)])
       \<and> (f (Found t (js_or (qr_code_id t) (qr_id (parseQRCode P d)))
                ''Tree found successfully!'') = None
            \<longrightarrow> fst (handleScan P E d (Some f) s) = Inr ())
       \<and> (isLoggedIn E \<and> recording_fails E
            \<longrightarrow> warnings (trace (snd (handleScan P E d (Some f) s))) =
                 warnings (trace s) @ [''Could not record scan:''])"
proof -
  from after_hit_trace [of P E d t s] obtain evs where
    evs: "trace (after_hit P E d t s) = trace s @ evs" "callbacks evs = []"
      "warnings evs =
         (if isLoggedIn E \<and> recording_fails E then [''Could not record scan:''] else [])"
    by blast
  show ?thesis
    by (simp add: handleScan_def handleScan_try_hit [OF assms] invoke_run try_catch_def
        then_do_def emit_def evs split: option.splits)
qed

theorem handleScan_hit_survives_recording_witness:
  "valid (parseQRCode browser scanned_url)
   \<and> result_of (find_tree found_by_code (parseQRCode browser scanned_url)) =
       Inr (Some \<lparr>tree_id = Str ''abc123'', qr_code_id = Str ''GS-999''\<rparr>)
   \<and> isLoggedIn found_by_code \<and> recording_fails found_by_code
   \<and> callbacks (trace (snd (handleScan browser found_by_code scanned_url (Some (\<lambda>r. None))
        started))) =
       [Found \<lparr>tree_id = Str ''abc123'', qr_code_id = Str ''GS-999''\<rparr> (Str ''GS-999'')
          ''Tree found successfully!'']
   \<and> fst (handleScan browser found_by_code scanned_url (Some (\<lambda>r. None)) started) = Inr ()
   \<and> warnings (trace (snd (handleScan browser found_by_code scanned_url (Some (\<lambda>r. None))
        started))) =
       [''Could not record scan:'']"
proof -
  have v: "valid (parseQRCode browser scanned_url)"
    by (simp add: parse_scanned_url)
  have h: "result_of (find_tree found_by_code (parseQRCode browser scanned_url)) =
       Inr (Some \<lparr>tree_id = Str ''abc123'', qr_code_id = Str ''GS-999''\<rparr>)"
    by (rule scanned_url_first_hit) (simp add: found_by_code_def)
  have l: "isLoggedIn found_by_code" "recording_fails found_by_code"
    by (simp_all add: isLoggedIn_def recording_fails_def found_by_code_def)
  from handleScan_hit_survives_recording [OF v h, of "\<lambda>r. None" started] v h l
  show ?thesis
    by (simp add: parse_scanned_url js_or_def started_def)
qed

end
